theory Spec2Isabelle
  imports Main
begin

section \<open>Data model\<close>

text \<open>
  The repository holds two generations of the diff code. The file \<open>diffParser.ts\<close>
  exports \<open>parseGitDiff\<close> and \<open>diffStrings\<close>; the class \<open>DiffDecorationProvider\<close> imports
  them for \<open>calculateDecorations\<close>. An earlier \<open>extension.ts\<close> carries module-local
  functions of the same two names. Both generations are modelled; the module-local ones
  have the suffix \<open>_local\<close>.

  JavaScript strings are sequences of code units; they are modelled as \<open>string\<close> (a list
  of characters), so \<open>s.length\<close> is \<open>length s\<close> and \<open>s[i]\<close> is \<open>s ! i\<close> for
  \<open>i < length s\<close>. The source compares code units for equality and tests them against
  the ASCII characters \<open>@ + - , 0 \<dots> 9\<close>, space and line feed only, so nothing below
  depends on the size of a code unit. The JavaScript numbers of the source hold line numbers, counts and
  columns; they are integers in every computation below and are modelled as \<open>int\<close>
  (as \<open>nat\<close> for the indices into strings and arrays, which the source never lets go
  negative). A JavaScript number is exact up to \<open>2^53\<close>, which is the range the model
  is meant for.
\<close>

datatype LineType = Added | Removed | Unchanged

text \<open>A line record \<open>{ type, content }\<close> of a hunk.\<close>

record LineRecord =
  ltype :: LineType
  content :: string

text \<open>A hunk \<open>{ oldStart, oldCount, newStart, newCount, lines }\<close>.\<close>

record Hunk =
  oldStart :: int
  oldCount :: int
  newStart :: int
  newCount :: int
  lines :: "LineRecord list"

section \<open>The hunk parsers\<close>

subsection \<open>String primitives\<close>

text \<open>\<open>diffOutput.split('\n')\<close>: the pieces between line feeds; never an empty array.\<close>

fun splitLF :: "string \<Rightarrow> string list" where
  "splitLF [] = [[]]"
| "splitLF (c # cs) =
     (if c = CHR 0x0A then [] # splitLF cs
      else (case splitLF cs of [] \<Rightarrow> [[c]] | l # ls \<Rightarrow> (c # l) # ls))"

definition startsWith :: "string \<Rightarrow> string \<Rightarrow> bool" where
  "startsWith s p = (take (length p) s = p)"

text \<open>The class \<open>\d\<close> of a JavaScript regular expression: the ten ASCII digits.\<close>

definition isDigit :: "char \<Rightarrow> bool" where
  "isDigit c = (c \<in> set ''0123456789'')"

definition digitValue :: "char \<Rightarrow> int" where
  "digitValue c = int (of_char c) - 48"

text \<open>
  \<open>parseInt(s, 10)\<close> on a non-empty string of digits. Both parsers call \<open>parseInt\<close> only on
  groups that matched \<open>\d+\<close>, or on a \<open>\d*\<close> group after testing that it is not empty;
  \<open>parseInt(s)\<close> without a radix reads such a string in base ten as well.
\<close>

definition parseInt :: "string \<Rightarrow> int" where
  "parseInt s = foldl (\<lambda>n c. 10 * n + digitValue c) 0 s"

text \<open>The optional comma \<open>,?\<close> of the header pattern.\<close>

definition optComma :: "string \<Rightarrow> string" where
  "optComma s = (case s of [] \<Rightarrow> [] | c # cs \<Rightarrow> if c = CHR '','' then cs else s)"

subsection \<open>The exported parser of \<open>diffParser.ts\<close>\<close>

text \<open>
  \<open>line.match(/^@@ -(\d+),?(\d*) \+(\d+),?(\d*) @@/)\<close>, returning the four groups.
  The pattern is anchored at the start of the line. Each run of digits is followed in the
  pattern by a character that is not a digit (a comma or a space), so the only match of
  \<open>(\d+),?(\d*)\<close> that lets the rest succeed takes every digit up to the first non-digit
  into the first group, then the comma if there is one, then every following digit into
  the second group; the model reads the groups that way.
\<close>

definition matchHunkHeader :: "string \<Rightarrow> (string \<times> string \<times> string \<times> string) option" where
  "matchHunkHeader line =
     (if \<not> startsWith line ''@@ -'' then None
      else
        let r1 = drop 4 line;
            g1 = takeWhile isDigit r1;
            r2 = optComma (dropWhile isDigit r1);
            g2 = takeWhile isDigit r2;
            r3 = dropWhile isDigit r2
        in if g1 = [] \<or> \<not> startsWith r3 '' +'' then None
           else
             let r4 = drop 2 r3;
                 g3 = takeWhile isDigit r4;
                 r5 = optComma (dropWhile isDigit r4);
                 g4 = takeWhile isDigit r5;
                 r6 = dropWhile isDigit r5
             in if g3 = [] \<or> \<not> startsWith r6 '' @@'' then None
                else Some (g1, g2, g3, g4))"

text \<open>
  The hunk a matched header opens: \<open>hunkHeaderMatch[2] ? parseInt(hunkHeaderMatch[2], 10) : 1\<close>
  tests the group for being a non-empty string.
\<close>

definition newHunk :: "string \<times> string \<times> string \<times> string \<Rightarrow> Hunk" where
  "newHunk m = (case m of (g1, g2, g3, g4) \<Rightarrow>
     \<lparr>oldStart = parseInt g1,
      oldCount = (if g2 \<noteq> [] then parseInt g2 else 1),
      newStart = parseInt g3,
      newCount = (if g4 \<noteq> [] then parseInt g4 else 1),
      lines = []\<rparr>)"

text \<open>The record a body line gives by its first character, if any; \<open>line.substring(1)\<close> is the rest.\<close>

definition lineRecordOf :: "string \<Rightarrow> LineRecord option" where
  "lineRecordOf line =
     (if startsWith line ''+'' then Some \<lparr>ltype = Added, content = drop 1 line\<rparr>
      else if startsWith line ''-'' then Some \<lparr>ltype = Removed, content = drop 1 line\<rparr>
      else if startsWith line '' '' then Some \<lparr>ltype = Unchanged, content = drop 1 line\<rparr>
      else None)"

definition pushLine :: "Hunk \<Rightarrow> string \<Rightarrow> Hunk" where
  "pushLine currentHunk line =
     (case lineRecordOf line of
        None \<Rightarrow> currentHunk
      | Some r \<Rightarrow> currentHunk\<lparr>lines := lines currentHunk @ [r]\<rparr>)"

definition finish :: "Hunk option \<Rightarrow> Hunk list \<Rightarrow> Hunk list" where
  "finish currentHunk hunks = (case currentHunk of None \<Rightarrow> hunks | Some h \<Rightarrow> hunks @ [h])"

text \<open>
  One turn of the loop over the lines. The state is \<open>currentHunk\<close> (\<open>null\<close> is \<open>None\<close>) and
  \<open>result.hunks\<close>.
\<close>

fun parseLine :: "Hunk option \<times> Hunk list \<Rightarrow> string \<Rightarrow> Hunk option \<times> Hunk list" where
  "parseLine (currentHunk, hunks) line =
     (case matchHunkHeader line of
        Some m \<Rightarrow> (Some (newHunk m), finish currentHunk hunks)
      | None \<Rightarrow>
          (case currentHunk of
             None \<Rightarrow> (None, hunks)
           | Some h \<Rightarrow> (Some (pushLine h line), hunks)))"

text \<open>\<open>parseGitDiff\<close> of \<open>diffParser.ts\<close>; the result object has the one field \<open>hunks\<close>.\<close>

definition parseGitDiff :: "string \<Rightarrow> Hunk list" where
  "parseGitDiff diffOutput =
     (if diffOutput = [] then []
      else case foldl parseLine (None, []) (splitLF diffOutput) of
             (currentHunk, hunks) \<Rightarrow> finish currentHunk hunks)"

subsection \<open>The module-local parser of \<open>extension.ts\<close>\<close>

text \<open>
  The pattern \<open>@@ -(\d+),(\d+) \+(\d+),(\d+) @@\<close> matched at the start of a text: both
  commas and both counts are required.
\<close>

definition matchStrictAt :: "string \<Rightarrow> (string \<times> string \<times> string \<times> string) option" where
  "matchStrictAt s =
     (if \<not> startsWith s ''@@ -'' then None
      else
        let r1 = drop 4 s;
            g1 = takeWhile isDigit r1;
            r2 = dropWhile isDigit r1
        in if g1 = [] \<or> \<not> startsWith r2 '','' then None
           else
             let r3 = drop 1 r2;
                 g2 = takeWhile isDigit r3;
                 r4 = dropWhile isDigit r3
             in if g2 = [] \<or> \<not> startsWith r4 '' +'' then None
                else
                  let r5 = drop 2 r4;
                      g3 = takeWhile isDigit r5;
                      r6 = dropWhile isDigit r5
                  in if g3 = [] \<or> \<not> startsWith r6 '','' then None
                     else
                       let r7 = drop 1 r6;
                           g4 = takeWhile isDigit r7;
                           r8 = dropWhile isDigit r7
                       in if g4 = [] \<or> \<not> startsWith r8 '' @@'' then None
                          else Some (g1, g2, g3, g4))"

text \<open>
  \<open>line.match(/@@ -(\d+),(\d+) \+(\d+),(\d+) @@/)\<close>: the pattern is not anchored, so the
  match is the one at the leftmost position of the line where the pattern matches.
\<close>

fun matchStrict :: "string \<Rightarrow> (string \<times> string \<times> string \<times> string) option" where
  "matchStrict [] = matchStrictAt []"
| "matchStrict (c # cs) =
     (case matchStrictAt (c # cs) of
        Some m \<Rightarrow> Some m
      | None \<Rightarrow> matchStrict cs)"

definition newHunk_local :: "string \<times> string \<times> string \<times> string \<Rightarrow> Hunk" where
  "newHunk_local m = (case m of (g1, g2, g3, g4) \<Rightarrow>
     \<lparr>oldStart = parseInt g1, oldCount = parseInt g2,
      newStart = parseInt g3, newCount = parseInt g4, lines = []\<rparr>)"

text \<open>
  One turn of the loop of the module-local parser: a line that starts with \<open>@@\<close> is
  consumed by the header branch whether or not the pattern matches (\<open>continue\<close>).
\<close>

fun parseLine_local :: "Hunk option \<times> Hunk list \<Rightarrow> string \<Rightarrow> Hunk option \<times> Hunk list" where
  "parseLine_local (currentHunk, hunks) line =
     (if startsWith line ''@@'' then
        (case matchStrict line of
           Some m \<Rightarrow> (Some (newHunk_local m), finish currentHunk hunks)
         | None \<Rightarrow> (currentHunk, hunks))
      else
        (case currentHunk of
           None \<Rightarrow> (None, hunks)
         | Some h \<Rightarrow> (Some (pushLine h line), hunks)))"

definition parseGitDiff_local :: "string \<Rightarrow> Hunk list" where
  "parseGitDiff_local diffOutput =
     (case foldl parseLine_local (None, []) (splitLF diffOutput) of
        (currentHunk, hunks) \<Rightarrow> finish currentHunk hunks)"

section \<open>The character differs\<close>

subsection \<open>The hand-written \<open>diffStrings\<close> of \<open>extension.ts\<close>\<close>

text \<open>
  A segment \<open>{ type, start, end }\<close>. The source computes the bounds of \<open>unchanged\<close> and
  \<open>removed\<close> segments from \<open>oldStr\<close> (the unchanged suffix is pushed with
  \<open>start: oldStr.length - suffixLength, end: oldStr.length\<close>) and the bounds of an
  \<open>added\<close> segment from \<open>newStr\<close>.
\<close>

record Segment =
  stype :: LineType
  sstart :: nat
  send :: nat

text \<open>
  \<open>while (prefixLength < minLength && oldStr[prefixLength] === newStr[prefixLength])
  prefixLength++\<close>, from the current value of \<open>prefixLength\<close>.
\<close>

function prefixLoop :: "string \<Rightarrow> string \<Rightarrow> nat \<Rightarrow> nat" where
  "prefixLoop oldStr newStr prefixLength =
     (if prefixLength < min (length oldStr) (length newStr)
         \<and> oldStr ! prefixLength = newStr ! prefixLength
      then prefixLoop oldStr newStr (prefixLength + 1)
      else prefixLength)"
  by pat_completeness auto
termination
  by (relation "measure (\<lambda>(oldStr, newStr, p). min (length oldStr) (length newStr) - p)") auto

declare prefixLoop.simps [simp del]

text \<open>
  \<open>while (suffixLength < oldSuffixLength && suffixLength < newSuffixLength &&
  oldStr[oldStr.length - suffixLength - 1] === newStr[newStr.length - suffixLength - 1])
  suffixLength++\<close>. Inside the loop both indices are in range, because
  \<open>suffixLength < oldSuffixLength \<le> oldStr.length\<close> and likewise for \<open>newStr\<close>.
\<close>

function suffixLoop :: "string \<Rightarrow> string \<Rightarrow> nat \<Rightarrow> nat \<Rightarrow> nat \<Rightarrow> nat" where
  "suffixLoop oldStr newStr oldSuffixLength newSuffixLength suffixLength =
     (if suffixLength < oldSuffixLength \<and> suffixLength < newSuffixLength
         \<and> oldStr ! (length oldStr - suffixLength - 1) = newStr ! (length newStr - suffixLength - 1)
      then suffixLoop oldStr newStr oldSuffixLength newSuffixLength (suffixLength + 1)
      else suffixLength)"
  by pat_completeness auto
termination
  by (relation "measure (\<lambda>(oldStr, newStr, os, ns, s). os - s)") auto

declare suffixLoop.simps [simp del]

text \<open>The body of the function, with its four conditional pushes in order.\<close>

definition diffStrings_local :: "string \<Rightarrow> string \<Rightarrow> Segment list" where
  "diffStrings_local oldStr newStr =
     (let prefixLength = prefixLoop oldStr newStr 0;
          oldSuffixLength0 = length oldStr - prefixLength;
          newSuffixLength0 = length newStr - prefixLength;
          suffixLength = suffixLoop oldStr newStr oldSuffixLength0 newSuffixLength0 0;
          oldSuffixLength = oldSuffixLength0 - suffixLength;
          newSuffixLength = newSuffixLength0 - suffixLength
      in (if prefixLength > 0
            then [\<lparr>stype = Unchanged, sstart = 0, send = prefixLength\<rparr>] else [])
       @ (if oldSuffixLength > 0
            then [\<lparr>stype = Removed, sstart = prefixLength, send = prefixLength + oldSuffixLength\<rparr>]
            else [])
       @ (if newSuffixLength > 0
            then [\<lparr>stype = Added, sstart = prefixLength, send = prefixLength + newSuffixLength\<rparr>]
            else [])
       @ (if suffixLength > 0
            then [\<lparr>stype = Unchanged, sstart = length oldStr - suffixLength, send = length oldStr\<rparr>]
            else []))"

text \<open>
  \<open>s.substring(a, b)\<close> for \<open>a \<le> b\<close>: the code units at positions \<open>a, \<dots>, b - 1\<close>
  (those that exist).
\<close>

definition substring :: "string \<Rightarrow> nat \<Rightarrow> nat \<Rightarrow> string" where
  "substring s a b = take (b - a) (drop a s)"

text \<open>
  The text a segment covers: an \<open>added\<close> segment is a range of \<open>newStr\<close>, an \<open>unchanged\<close> or
  \<open>removed\<close> segment is a range of \<open>oldStr\<close>, as the source computes their bounds.
\<close>

definition segmentText :: "string \<Rightarrow> string \<Rightarrow> Segment \<Rightarrow> string" where
  "segmentText oldStr newStr c =
     (if stype c = Added then substring newStr (sstart c) (send c)
      else substring oldStr (sstart c) (send c))"

text \<open>
  The texts of the \<open>unchanged\<close> and \<open>removed\<close> segments in order, and the texts of the
  \<open>unchanged\<close> and \<open>added\<close> segments in order.
\<close>

definition oldText :: "string \<Rightarrow> string \<Rightarrow> Segment list \<Rightarrow> string" where
  "oldText oldStr newStr cs =
     concat (map (segmentText oldStr newStr) (filter (\<lambda>c. stype c \<noteq> Added) cs))"

definition newText :: "string \<Rightarrow> string \<Rightarrow> Segment list \<Rightarrow> string" where
  "newText oldStr newStr cs =
     concat (map (segmentText oldStr newStr) (filter (\<lambda>c. stype c \<noteq> Removed) cs))"

subsection \<open>The exported \<open>diffStrings\<close> of \<open>diffParser.ts\<close>\<close>

text \<open>
  A change object \<open>{ value, added, removed }\<close> of the package \<open>diff\<close>; a flag that is
  absent reads as false.
\<close>

record Change =
  cvalue :: string
  cadded :: bool
  cremoved :: bool

text \<open>
  The exported \<open>diffStrings\<close> returns \<open>Diff.diffChars(oldStr, newStr)\<close>. The package
  \<open>diff\<close> is an external library, so its function is a parameter of the model.
\<close>

type_synonym differ = "string \<Rightarrow> string \<Rightarrow> Change list"

definition diffStrings :: "differ \<Rightarrow> string \<Rightarrow> string \<Rightarrow> Change list" where
  "diffStrings diffChars oldStr newStr = diffChars oldStr newStr"

text \<open>
  A concrete differ for evaluating the projector on examples: the segments of the
  hand-written differ as change objects that carry their text.
\<close>

definition segmentChange :: "string \<Rightarrow> string \<Rightarrow> Segment \<Rightarrow> Change" where
  "segmentChange oldStr newStr c =
     \<lparr>cvalue = segmentText oldStr newStr c,
      cadded = (stype c = Added),
      cremoved = (stype c = Removed)\<rparr>"

definition trimDiffer :: differ where
  "trimDiffer oldStr newStr = map (segmentChange oldStr newStr) (diffStrings_local oldStr newStr)"

section \<open>The annotation projector\<close>

subsection \<open>Editor objects\<close>

text \<open>\<open>new vscode.Range(startLine, startCharacter, endLine, endCharacter)\<close>.\<close>

record Range =
  startLine :: int
  startCharacter :: int
  endLine :: int
  endCharacter :: int

text \<open>
  A decoration option \<open>{ range, renderOptions? }\<close>. Of the render options only
  \<open>after.contentText\<close> varies; the colours, margin and border are constants of the source.
\<close>

record DecorationOptions =
  decoRange :: Range
  contentText :: "string option"

record DecorationOptionsMap =
  addedLines :: "DecorationOptions list"
  modifiedLines :: "DecorationOptions list"
  addedTexts :: "DecorationOptions list"
  deletedCharacterMarkers :: "DecorationOptions list"

record DiffCalculationResult =
  decorationOptions :: DecorationOptionsMap
  inlineDeletedLineOptions :: "DecorationOptions list"

text \<open>
  The document is the list of the texts of its lines. \<open>document.lineAt(n)\<close> throws for a
  line number outside \<open>0 \<dots> lineCount - 1\<close>; its result has the fields \<open>text\<close> and
  \<open>range\<close>, the range of the whole line.
\<close>

datatype error = IllegalLine

definition lineCount :: "string list \<Rightarrow> int" where
  "lineCount document = int (length document)"

definition lineAt :: "string list \<Rightarrow> int \<Rightarrow> error + string" where
  "lineAt document n =
     (if n < 0 \<or> lineCount document \<le> n then Inl IllegalLine else Inr (document ! nat n))"

definition textLineRange :: "int \<Rightarrow> string \<Rightarrow> Range" where
  "textLineRange n text =
     \<lparr>startLine = n, startCharacter = 0, endLine = n, endCharacter = int (length text)\<rparr>"

subsection \<open>Number formatting\<close>

text \<open>
  The decimal digits a template literal prints for an integer (below \<open>10^21\<close>, where
  JavaScript turns to exponent notation; line numbers are far below).
\<close>

function digitsOf :: "nat \<Rightarrow> string" where
  "digitsOf n = (if n < 10 then [''0123456789'' ! n]
                 else digitsOf (n div 10) @ [''0123456789'' ! (n mod 10)])"
  by pat_completeness auto
termination
  by (relation "measure id") auto

declare digitsOf.simps [simp del]

definition showInt :: "int \<Rightarrow> string" where
  "showInt n = (if n < 0 then CHR ''-'' # digitsOf (nat (- n)) else digitsOf (nat n))"

subsection \<open>\<open>calculateDecorations\<close>\<close>

text \<open>
  One turn of the loop over \<open>charChanges\<close>, for the editor line \<open>editorLineIndex\<close>; the
  state is \<open>currentCharacterIndex\<close> and the decoration map.
\<close>

fun walkChange ::
  "int \<Rightarrow> int \<times> DecorationOptionsMap \<Rightarrow> Change \<Rightarrow> int \<times> DecorationOptionsMap" where
  "walkChange editorLineIndex (currentCharacterIndex, opts) change =
     (let changeLength = int (length (cvalue change))
      in if cadded change then
           (currentCharacterIndex + changeLength,
            opts\<lparr>addedTexts := addedTexts opts @
              [\<lparr>decoRange = \<lparr>startLine = editorLineIndex, startCharacter = currentCharacterIndex,
                             endLine = editorLineIndex,
                             endCharacter = currentCharacterIndex + changeLength\<rparr>,
                contentText = None\<rparr>]\<rparr>)
         else if cremoved change then
           (currentCharacterIndex,
            opts\<lparr>deletedCharacterMarkers := deletedCharacterMarkers opts @
              [\<lparr>decoRange = \<lparr>startLine = editorLineIndex, startCharacter = currentCharacterIndex,
                             endLine = editorLineIndex, endCharacter = currentCharacterIndex\<rparr>,
                contentText = Some (cvalue change)\<rparr>]\<rparr>)
         else (currentCharacterIndex + changeLength, opts))"

text \<open>\<open>`- ${firstDeletedLineNumber}: ${lineInfo.content}`\<close>\<close>

definition formattedLine :: "int \<Rightarrow> string \<Rightarrow> string" where
  "formattedLine firstDeletedLineNumber text =
     ''- '' @ showInt firstDeletedLineNumber @ '': '' @ text"

text \<open>\<open>i + 1 < hunk.lines.length && hunk.lines[i + 1].type === 'added'\<close>\<close>

definition isModification :: "Hunk \<Rightarrow> nat \<Rightarrow> bool" where
  "isModification hunk i = (i + 1 < length (lines hunk) \<and> ltype (lines hunk ! (i + 1)) = Added)"

text \<open>\<open>i > 0 && hunk.lines[i - 1].type === 'removed'\<close>\<close>

definition followsRemoved :: "Hunk \<Rightarrow> nat \<Rightarrow> bool" where
  "followsRemoved hunk i = (i > 0 \<and> ltype (lines hunk ! (i - 1)) = Removed)"

type_synonym lineState = "DiffCalculationResult \<times> int \<times> int"

text \<open>
  The body of the loop over \<open>hunk.lines\<close> at index \<open>i < hunk.lines.length\<close>. The state is
  the result under construction, \<open>editorLineIndex\<close> and \<open>oldLineIndexInHunk\<close>.
\<close>

definition processLine ::
  "differ \<Rightarrow> string list \<Rightarrow> Hunk \<Rightarrow> nat \<Rightarrow> lineState \<Rightarrow> error + lineState" where
  "processLine diffChars document hunk i st =
     (case st of (result, editorLineIndex, oldLineIndexInHunk) \<Rightarrow>
      let lineInfo = lines hunk ! i
      in case ltype lineInfo of
           Added \<Rightarrow>
             if editorLineIndex < lineCount document then
               (case lineAt document editorLineIndex of
                  Inl e \<Rightarrow> Inl e
                | Inr currentEditorLine \<Rightarrow>
                    let lineRange = \<lparr>startLine = editorLineIndex, startCharacter = 0,
                                     endLine = editorLineIndex, endCharacter = 0\<rparr>
                    in if followsRemoved hunk i then
                         let oldLineContent = content (lines hunk ! (i - 1));
                             newLineContent = content lineInfo;
                             charChanges = diffStrings diffChars oldLineContent newLineContent;
                             opts = snd (foldl (walkChange editorLineIndex)
                                           (0, decorationOptions result) charChanges)
                         in Inr (result\<lparr>decorationOptions :=
                                    opts\<lparr>modifiedLines := modifiedLines opts @
                                      [\<lparr>decoRange = lineRange, contentText = None\<rparr>]\<rparr>\<rparr>,
                                 editorLineIndex + 1, oldLineIndexInHunk)
                       else
                         let opts = decorationOptions result;
                             opts1 = opts\<lparr>addedLines := addedLines opts @
                                       [\<lparr>decoRange = lineRange, contentText = None\<rparr>]\<rparr>;
                             opts2 = (if length currentEditorLine > 0 then
                                        opts1\<lparr>addedTexts := addedTexts opts1 @
                                          [\<lparr>decoRange = textLineRange editorLineIndex currentEditorLine,
                                            contentText = None\<rparr>]\<rparr>
                                      else opts1)
                         in Inr (result\<lparr>decorationOptions := opts2\<rparr>,
                                 editorLineIndex + 1, oldLineIndexInHunk))
             else Inr (result, editorLineIndex + 1, oldLineIndexInHunk)
         | Removed \<Rightarrow>
             if \<not> isModification hunk i then
               let precedingEditorLineIndex = editorLineIndex - 1;
                   firstDeletedLineNumber = oldStart hunk + oldLineIndexInHunk
               in if precedingEditorLineIndex \<ge> 0 then
                    if precedingEditorLineIndex < lineCount document then
                      (case lineAt document precedingEditorLineIndex of
                         Inl e \<Rightarrow> Inl e
                       | Inr precedingLine \<Rightarrow>
                           Inr (result\<lparr>inlineDeletedLineOptions := inlineDeletedLineOptions result @
                                  [\<lparr>decoRange = textLineRange precedingEditorLineIndex precedingLine,
                                    contentText = Some (formattedLine firstDeletedLineNumber
                                                          (content lineInfo))\<rparr>]\<rparr>,
                                editorLineIndex, oldLineIndexInHunk + 1))
                    else Inr (result, editorLineIndex, oldLineIndexInHunk + 1)
                  else
                    if lineCount document > 0 then
                      (case lineAt document 0 of
                         Inl e \<Rightarrow> Inl e
                       | Inr lineZero \<Rightarrow>
                           Inr (result\<lparr>inlineDeletedLineOptions := inlineDeletedLineOptions result @
                                  [\<lparr>decoRange = textLineRange 0 lineZero,
                                    contentText = Some (formattedLine firstDeletedLineNumber
                                                          (content lineInfo))\<rparr>]\<rparr>,
                                editorLineIndex, oldLineIndexInHunk + 1))
                    else Inr (result, editorLineIndex, oldLineIndexInHunk + 1)
             else Inr (result, editorLineIndex, oldLineIndexInHunk + 1)
         | Unchanged \<Rightarrow> Inr (result, editorLineIndex + 1, oldLineIndexInHunk + 1))"

text \<open>
  \<open>for (let i = 0; i < hunk.lines.length; i++)\<close>, as the run of the body over a list of
  indices; an exception ends the run.
\<close>

fun linesLoop ::
  "differ \<Rightarrow> string list \<Rightarrow> Hunk \<Rightarrow> nat list \<Rightarrow> lineState \<Rightarrow> error + lineState" where
  "linesLoop diffChars document hunk [] st = Inr st"
| "linesLoop diffChars document hunk (i # is) st =
     (case processLine diffChars document hunk i st of
        Inl e \<Rightarrow> Inl e
      | Inr st' \<Rightarrow> linesLoop diffChars document hunk is st')"

text \<open>One hunk: both cursors are set afresh and the result is carried on.\<close>

definition processHunk ::
  "differ \<Rightarrow> string list \<Rightarrow> DiffCalculationResult \<Rightarrow> Hunk \<Rightarrow> error + DiffCalculationResult" where
  "processHunk diffChars document result hunk =
     (case linesLoop diffChars document hunk [0..<length (lines hunk)]
             (result, newStart hunk - 1, 0) of
        Inl e \<Rightarrow> Inl e
      | Inr st \<Rightarrow> Inr (fst st))"

fun hunksLoop ::
  "differ \<Rightarrow> string list \<Rightarrow> Hunk list \<Rightarrow> DiffCalculationResult \<Rightarrow> error + DiffCalculationResult" where
  "hunksLoop diffChars document [] result = Inr result"
| "hunksLoop diffChars document (hunk # hunks) result =
     (case processHunk diffChars document result hunk of
        Inl e \<Rightarrow> Inl e
      | Inr result' \<Rightarrow> hunksLoop diffChars document hunks result')"

definition emptyResult :: DiffCalculationResult where
  "emptyResult =
     \<lparr>decorationOptions =
        \<lparr>addedLines = [], modifiedLines = [], addedTexts = [], deletedCharacterMarkers = []\<rparr>,
      inlineDeletedLineOptions = []\<rparr>"

text \<open>
  \<open>calculateDecorations(parsedDiff, editor)\<close>: \<open>parsedDiff.hunks\<close> and the lines of
  \<open>editor.document\<close> are the inputs; the result arrays start empty at every call.
\<close>

definition calculateDecorations ::
  "differ \<Rightarrow> Hunk list \<Rightarrow> string list \<Rightarrow> error + DiffCalculationResult" where
  "calculateDecorations diffChars hunks document = hunksLoop diffChars document hunks emptyResult"

section \<open>Descriptions used in the statements\<close>

text \<open>The zero-width range at the start of an editor line, used for whole-line decorations.\<close>

definition lineMark :: "int \<Rightarrow> DecorationOptions" where
  "lineMark n =
     \<lparr>decoRange = \<lparr>startLine = n, startCharacter = 0, endLine = n, endCharacter = 0\<rparr>,
      contentText = None\<rparr>"

text \<open>
  The editor line a pure deletion is attached to when the editor cursor is \<open>editorLine\<close>:
  the preceding line if it exists, line 0 if the deletion is at the very start and the
  document has a line, and none otherwise.
\<close>

definition ghostLine :: "string list \<Rightarrow> int \<Rightarrow> int option" where
  "ghostLine document editorLine =
     (if 0 \<le> editorLine - 1 \<and> editorLine - 1 < lineCount document then Some (editorLine - 1)
      else if editorLine - 1 < 0 \<and> lineCount document > 0 then Some 0
      else None)"

text \<open>
  The deleted-line descriptor attached to editor line \<open>n\<close> for the old line number
  \<open>oldLineNumber\<close> and the deleted text.
\<close>

definition ghostAt :: "string list \<Rightarrow> int \<Rightarrow> int \<Rightarrow> string \<Rightarrow> DecorationOptions" where
  "ghostAt document n oldLineNumber text =
     \<lparr>decoRange = textLineRange n (document ! nat n),
      contentText = Some (''- '' @ showInt oldLineNumber @ '': '' @ text)\<rparr>"

text \<open>The descriptors (none or one) of a pure deletion.\<close>

definition ghosts :: "string list \<Rightarrow> int \<Rightarrow> int \<Rightarrow> string \<Rightarrow> DecorationOptions list" where
  "ghosts document editorLine oldLineNumber text =
     (case ghostLine document editorLine of
        None \<Rightarrow> []
      | Some n \<Rightarrow> [ghostAt document n oldLineNumber text])"

text \<open>The inserted-text range over the whole of a live line, if the line is not empty.\<close>

definition fullLineText :: "string list \<Rightarrow> int \<Rightarrow> DecorationOptions list" where
  "fullLineText document n =
     (if length (document ! nat n) > 0
      then [\<lparr>decoRange = textLineRange n (document ! nat n), contentText = None\<rparr>]
      else [])"

text \<open>
  The kinds of a character segment as the walk tests them: inserted when \<open>added\<close> is set,
  deleted when \<open>removed\<close> is set and \<open>added\<close> is not, equal otherwise.
\<close>

definition isInserted :: "Change \<Rightarrow> bool" where
  "isInserted c = cadded c"

definition isDeleted :: "Change \<Rightarrow> bool" where
  "isDeleted c = (\<not> cadded c \<and> cremoved c)"

text \<open>
  The column of the cursor before the segment at position \<open>k\<close>: the total length of the
  equal and inserted segments before it.
\<close>

definition columnBefore :: "Change list \<Rightarrow> nat \<Rightarrow> int" where
  "columnBefore cs k =
     sum_list (map (\<lambda>c. int (length (cvalue c))) (filter (\<lambda>c. \<not> isDeleted c) (take k cs)))"

text \<open>
  The inserted-text ranges of a segment list on editor line \<open>n\<close>, one for each inserted
  segment in order, and the deleted-text markers, one for each deleted segment in order.
\<close>

definition insertedRange :: "int \<Rightarrow> Change list \<Rightarrow> nat \<Rightarrow> DecorationOptions" where
  "insertedRange n cs k =
     \<lparr>decoRange = \<lparr>startLine = n, startCharacter = columnBefore cs k, endLine = n,
                    endCharacter = columnBefore cs k + int (length (cvalue (cs ! k)))\<rparr>,
      contentText = None\<rparr>"

definition deletedMarker :: "int \<Rightarrow> Change list \<Rightarrow> nat \<Rightarrow> DecorationOptions" where
  "deletedMarker n cs k =
     \<lparr>decoRange = \<lparr>startLine = n, startCharacter = columnBefore cs k, endLine = n,
                    endCharacter = columnBefore cs k\<rparr>,
      contentText = Some (cvalue (cs ! k))\<rparr>"

definition insertedRanges :: "int \<Rightarrow> Change list \<Rightarrow> DecorationOptions list" where
  "insertedRanges n cs =
     map (insertedRange n cs) (filter (\<lambda>k. isInserted (cs ! k)) [0..<length cs])"

definition deletedMarkers :: "int \<Rightarrow> Change list \<Rightarrow> DecorationOptions list" where
  "deletedMarkers n cs =
     map (deletedMarker n cs) (filter (\<lambda>k. isDeleted (cs ! k)) [0..<length cs])"

text \<open>All annotations of a result: the four categories of the map and the deleted-line list.\<close>

definition annotations :: "DiffCalculationResult \<Rightarrow> DecorationOptions list" where
  "annotations result =
     addedLines (decorationOptions result) @ modifiedLines (decorationOptions result)
     @ addedTexts (decorationOptions result) @ deletedCharacterMarkers (decorationOptions result)
     @ inlineDeletedLineOptions result"

text \<open>An annotation lies on one line of the document.\<close>

definition onDocumentLine :: "string list \<Rightarrow> DecorationOptions \<Rightarrow> bool" where
  "onDocumentLine document a =
     (0 \<le> startLine (decoRange a) \<and> startLine (decoRange a) < lineCount document
      \<and> endLine (decoRange a) = startLine (decoRange a))"

text \<open>
  An annotation lies within the document: on one of its lines, with a column range inside
  the live text of that line.
\<close>

definition withinDocument :: "string list \<Rightarrow> DecorationOptions \<Rightarrow> bool" where
  "withinDocument document a =
     (onDocumentLine document a
      \<and> 0 \<le> startCharacter (decoRange a)
      \<and> startCharacter (decoRange a) \<le> endCharacter (decoRange a)
      \<and> endCharacter (decoRange a) \<le> int (length (document ! nat (startLine (decoRange a)))))"

text \<open>
  The numbers of line records of a hunk that belong to the old file (not \<open>added\<close>) and to
  the new file (not \<open>removed\<close>), and the invariant of the data model that compares them with
  the counts of the header.
\<close>

definition oldLines :: "Hunk \<Rightarrow> nat" where
  "oldLines h = length (filter (\<lambda>r. ltype r \<noteq> Added) (lines h))"

definition newLines :: "Hunk \<Rightarrow> nat" where
  "newLines h = length (filter (\<lambda>r. ltype r \<noteq> Removed) (lines h))"

definition countsAgree :: "Hunk \<Rightarrow> bool" where
  "countsAgree h = (int (oldLines h) = oldCount h \<and> int (newLines h) = newCount h)"

text \<open>
  The lines of a diff as a preamble followed by sections, each a header line and the
  lines up to the next header. The records of a section are those of its body lines that
  start with \<open>+\<close>, \<open>-\<close> or a space.
\<close>

definition sectionLines :: "(string \<times> string list) list \<Rightarrow> string list" where
  "sectionLines secs = concat (map (\<lambda>(h, body). h # body) secs)"

definition bodyRecords :: "string list \<Rightarrow> LineRecord list" where
  "bodyRecords body = concat (map (\<lambda>l. case lineRecordOf l of None \<Rightarrow> [] | Some r \<Rightarrow> [r]) body)"

definition sectionHunk :: "string \<times> string list \<Rightarrow> Hunk" where
  "sectionHunk s = (case s of (h, body) \<Rightarrow>
     (case matchHunkHeader h of
        None \<Rightarrow> \<lparr>oldStart = 0, oldCount = 0, newStart = 0, newCount = 0, lines = bodyRecords body\<rparr>
      | Some m \<Rightarrow> (newHunk m)\<lparr>lines := bodyRecords body\<rparr>))"

definition isSection :: "string \<times> string list \<Rightarrow> bool" where
  "isSection s = (case s of (h, body) \<Rightarrow>
     matchHunkHeader h \<noteq> None \<and> list_all (\<lambda>l. matchHunkHeader l = None) body)"

text \<open>
  A hunk header as text: \<open>@@ -a[,b] +c[,d] @@\<close> followed by anything, with each count
  group present or omitted. A number is a non-empty string of digits.
\<close>

definition isNumber :: "string \<Rightarrow> bool" where
  "isNumber s = (s \<noteq> [] \<and> list_all isDigit s)"

definition countText :: "string option \<Rightarrow> string" where
  "countText c = (case c of None \<Rightarrow> [] | Some b \<Rightarrow> '','' @ b)"

definition headerLine :: "string \<Rightarrow> string option \<Rightarrow> string \<Rightarrow> string option \<Rightarrow> string \<Rightarrow> string" where
  "headerLine a b c d rest =
     ''@@ -'' @ a @ countText b @ '' +'' @ c @ countText d @ '' @@'' @ rest"

definition countValue :: "string option \<Rightarrow> int" where
  "countValue c = (case c of None \<Rightarrow> 1 | Some b \<Rightarrow> parseInt b)"

text \<open>
  The two cursors when the loop reaches the record at position \<open>i\<close> of a hunk, counted
  from the records before it: \<open>editorLine\<close> starts at \<open>newStart - 1\<close> and has advanced once
  for every record that is not \<open>removed\<close>, \<open>oldLineCursor\<close> starts at 0 and has advanced once
  for every record that is not \<open>added\<close>.
\<close>

definition editorLineAt :: "Hunk \<Rightarrow> nat \<Rightarrow> int" where
  "editorLineAt h i =
     newStart h - 1 + int (length (filter (\<lambda>r. ltype r \<noteq> Removed) (take i (lines h))))"

definition oldCursorAt :: "Hunk \<Rightarrow> nat \<Rightarrow> int" where
  "oldCursorAt h i = int (length (filter (\<lambda>r. ltype r \<noteq> Added) (take i (lines h))))"

definition inBounds :: "string list \<Rightarrow> int \<Rightarrow> bool" where
  "inBounds document n = (0 \<le> n \<and> n < lineCount document)"

text \<open>
  What the record at position \<open>i\<close> of a hunk adds to each list of the bundle, by the local
  pairing rule: an added record right after a removed one is a modification, any other
  added record is a pure addition, and a removed record that is not right before an added
  one is a pure deletion.
\<close>

definition modifiedLineAt :: "string list \<Rightarrow> Hunk \<Rightarrow> nat \<Rightarrow> DecorationOptions list" where
  "modifiedLineAt document h i =
     (if ltype (lines h ! i) = Added \<and> (0 < i \<and> ltype (lines h ! (i - 1)) = Removed)
         \<and> inBounds document (editorLineAt h i)
      then [lineMark (editorLineAt h i)] else [])"

definition addedLineAt :: "string list \<Rightarrow> Hunk \<Rightarrow> nat \<Rightarrow> DecorationOptions list" where
  "addedLineAt document h i =
     (if ltype (lines h ! i) = Added \<and> \<not> (0 < i \<and> ltype (lines h ! (i - 1)) = Removed)
         \<and> inBounds document (editorLineAt h i)
      then [lineMark (editorLineAt h i)] else [])"

definition addedTextsAt :: "differ \<Rightarrow> string list \<Rightarrow> Hunk \<Rightarrow> nat \<Rightarrow> DecorationOptions list" where
  "addedTextsAt diffChars document h i =
     (if ltype (lines h ! i) = Added \<and> inBounds document (editorLineAt h i) then
        (if 0 < i \<and> ltype (lines h ! (i - 1)) = Removed
         then insertedRanges (editorLineAt h i)
                (diffStrings diffChars (content (lines h ! (i - 1))) (content (lines h ! i)))
         else fullLineText document (editorLineAt h i))
      else [])"

definition markersAt :: "differ \<Rightarrow> string list \<Rightarrow> Hunk \<Rightarrow> nat \<Rightarrow> DecorationOptions list" where
  "markersAt diffChars document h i =
     (if ltype (lines h ! i) = Added \<and> (0 < i \<and> ltype (lines h ! (i - 1)) = Removed)
         \<and> inBounds document (editorLineAt h i)
      then deletedMarkers (editorLineAt h i)
             (diffStrings diffChars (content (lines h ! (i - 1))) (content (lines h ! i)))
      else [])"

definition ghostsAt :: "string list \<Rightarrow> Hunk \<Rightarrow> nat \<Rightarrow> DecorationOptions list" where
  "ghostsAt document h i =
     (if ltype (lines h ! i) = Removed
         \<and> \<not> (i + 1 < length (lines h) \<and> ltype (lines h ! (i + 1)) = Added)
      then ghosts document (editorLineAt h i) (oldStart h + oldCursorAt h i)
             (content (lines h ! i))
      else [])"

text \<open>The contributions of all records of all hunks, in the order of the loops.\<close>

definition collect :: "(Hunk \<Rightarrow> nat \<Rightarrow> 'a list) \<Rightarrow> Hunk list \<Rightarrow> 'a list" where
  "collect f hunks = concat (map (\<lambda>h. concat (map (f h) [0..<length (lines h)])) hunks)"

text \<open>
  The only exception of the projector is the one of \<open>document.lineAt\<close> for a negative
  line, which an added record raises when its editor line is negative. A hunk runs to its
  end when no added record has a negative editor line.
\<close>

definition runsThrough :: "Hunk \<Rightarrow> bool" where
  "runsThrough h =
     list_all (\<lambda>i. ltype (lines h ! i) \<noteq> Added \<or> 0 \<le> editorLineAt h i) [0..<length (lines h)]"

text \<open>
  An annotation lies on a line of the document with an ordered, non-negative column
  range.
\<close>

definition onLineWithColumns :: "string list \<Rightarrow> DecorationOptions \<Rightarrow> bool" where
  "onLineWithColumns document a =
     (onDocumentLine document a
      \<and> 0 \<le> startCharacter (decoRange a)
      \<and> startCharacter (decoRange a) \<le> endCharacter (decoRange a))"

text \<open>
  The bundle of one record for given cursors, and the list-wise union of two bundles;
  the loop adds the bundle of each record to the result.
\<close>

definition appendBundle :: "DiffCalculationResult \<Rightarrow> DiffCalculationResult \<Rightarrow> DiffCalculationResult" where
  "appendBundle r c =
     \<lparr>decorationOptions =
        \<lparr>addedLines = addedLines (decorationOptions r) @ addedLines (decorationOptions c),
         modifiedLines = modifiedLines (decorationOptions r) @ modifiedLines (decorationOptions c),
         addedTexts = addedTexts (decorationOptions r) @ addedTexts (decorationOptions c),
         deletedCharacterMarkers =
           deletedCharacterMarkers (decorationOptions r)
           @ deletedCharacterMarkers (decorationOptions c)\<rparr>,
      inlineDeletedLineOptions = inlineDeletedLineOptions r @ inlineDeletedLineOptions c\<rparr>"

definition recordBundle :: "differ \<Rightarrow> string list \<Rightarrow> Hunk \<Rightarrow> nat \<Rightarrow> DiffCalculationResult" where
  "recordBundle diffChars document h i =
     \<lparr>decorationOptions =
        \<lparr>addedLines = addedLineAt document h i,
         modifiedLines = modifiedLineAt document h i,
         addedTexts = addedTextsAt diffChars document h i,
         deletedCharacterMarkers = markersAt diffChars document h i\<rparr>,
      inlineDeletedLineOptions = ghostsAt document h i\<rparr>"

definition hunkBundle ::
  "differ \<Rightarrow> string list \<Rightarrow> DiffCalculationResult \<Rightarrow> Hunk \<Rightarrow> DiffCalculationResult" where
  "hunkBundle diffChars document r h =
     foldl appendBundle r (map (recordBundle diffChars document h) [0..<length (lines h)])"

section \<open>Example inputs\<close>






text \<open>Two removed lines followed by two added lines, after an unchanged line.\<close>

definition exHunkRun :: Hunk where
  "exHunkRun = \<lparr>oldStart = 1, oldCount = 3, newStart = 1, newCount = 3,
     lines = [\<lparr>ltype = Unchanged, content = ''u''\<rparr>,
              \<lparr>ltype = Removed, content = ''p''\<rparr>,
              \<lparr>ltype = Removed, content = ''q''\<rparr>,
              \<lparr>ltype = Added, content = ''r''\<rparr>,
              \<lparr>ltype = Added, content = ''s''\<rparr>]\<rparr>"

definition exDocRun :: "string list" where
  "exDocRun = [''u'', ''r'', ''s'']"

definition exResRun :: DiffCalculationResult where
  "exResRun =
     \<lparr>decorationOptions =
        \<lparr>addedLines =
           [\<lparr>decoRange = \<lparr>startLine = 2, startCharacter = 0, endLine = 2, endCharacter = 0\<rparr>,
             contentText = None\<rparr>],
         modifiedLines =
           [\<lparr>decoRange = \<lparr>startLine = 1, startCharacter = 0, endLine = 1, endCharacter = 0\<rparr>,
             contentText = None\<rparr>],
         addedTexts =
           [\<lparr>decoRange = \<lparr>startLine = 1, startCharacter = 0, endLine = 1, endCharacter = 1\<rparr>,
             contentText = None\<rparr>,
            \<lparr>decoRange = \<lparr>startLine = 2, startCharacter = 0, endLine = 2, endCharacter = 1\<rparr>,
             contentText = None\<rparr>],
         deletedCharacterMarkers =
           [\<lparr>decoRange = \<lparr>startLine = 1, startCharacter = 0, endLine = 1, endCharacter = 0\<rparr>,
             contentText = Some ''q''\<rparr>]\<rparr>,
      inlineDeletedLineOptions =
        [\<lparr>decoRange = \<lparr>startLine = 0, startCharacter = 0, endLine = 0, endCharacter = 1\<rparr>,
          contentText = Some ''- 2: p''\<rparr>]\<rparr>"

text \<open>
  A removed line followed by an added line whose editor line is beyond the document: the
  hunk is \<open>u\<close>, \<open>-p\<close>, \<open>+q\<close> and the document has the one line \<open>u\<close>.
\<close>

definition exHunkBeyond :: Hunk where
  "exHunkBeyond = \<lparr>oldStart = 1, oldCount = 2, newStart = 1, newCount = 2,
     lines = [\<lparr>ltype = Unchanged, content = ''u''\<rparr>,
              \<lparr>ltype = Removed, content = ''p''\<rparr>,
              \<lparr>ltype = Added, content = ''q''\<rparr>]\<rparr>"

text \<open>
  A modification whose live line is shorter than the new content the diff recorded:
  the hunk turns \<open>ab\<close> into \<open>abcd\<close>, the editor line now reads \<open>ab\<close>.
\<close>

definition exHunkStale :: Hunk where
  "exHunkStale = \<lparr>oldStart = 1, oldCount = 1, newStart = 1, newCount = 1,
     lines = [\<lparr>ltype = Removed, content = ''ab''\<rparr>,
              \<lparr>ltype = Added, content = ''abcd''\<rparr>]\<rparr>"

definition exResStale :: DiffCalculationResult where
  "exResStale =
     \<lparr>decorationOptions =
        \<lparr>addedLines = [],
         modifiedLines =
           [\<lparr>decoRange = \<lparr>startLine = 0, startCharacter = 0, endLine = 0, endCharacter = 0\<rparr>,
             contentText = None\<rparr>],
         addedTexts =
           [\<lparr>decoRange = \<lparr>startLine = 0, startCharacter = 2, endLine = 0, endCharacter = 4\<rparr>,
             contentText = None\<rparr>],
         deletedCharacterMarkers = []\<rparr>,
      inlineDeletedLineOptions = []\<rparr>"

text \<open>A diff whose header declares five old and five new lines and whose body has one line.\<close>

definition exDiffShort :: string where
  "exDiffShort = ''@@ -1,5 +1,5 @@'' @ [CHR 0x0A] @ ''+a''"

text \<open>The diff of the test \<open>parseGitDiff should parse a simple diff\<close>.\<close>

definition exDiffSimple :: string where
  "exDiffSimple = ''@@ -1,2 +1,3 @@'' @ [CHR 0x0A] @ '' unchanged line'' @ [CHR 0x0A]
     @ ''-removed line'' @ [CHR 0x0A] @ ''+added line'' @ [CHR 0x0A] @ ''+another added line''"

text \<open>
  The diff git prints for a change of the only line of a one-line file: both counts are
  1 and git omits them.
\<close>

definition exDiffOneLine :: string where
  "exDiffOneLine = ''@@ -1 +1 @@'' @ [CHR 0x0A] @ ''-a'' @ [CHR 0x0A] @ ''+b''"

text \<open>A diff of two hunks, the second with omitted counts.\<close>

definition exDiffTwoHunks :: string where
  "exDiffTwoHunks = ''@@ -1,2 +1,2 @@'' @ [CHR 0x0A] @ '' a'' @ [CHR 0x0A] @ ''-b'' @ [CHR 0x0A]
     @ ''+c'' @ [CHR 0x0A] @ ''@@ -9 +9 @@'' @ [CHR 0x0A] @ ''-x'' @ [CHR 0x0A] @ ''+y''"

text \<open>
  The hunk git prints when both lines of a two-line file are deleted,
  \<open>@@ -1,2 +0,0 @@\<close>, over the one empty line of the emptied document.
\<close>

definition exHunkEmptied :: Hunk where
  "exHunkEmptied = \<lparr>oldStart = 1, oldCount = 2, newStart = 0, newCount = 0,
     lines = [\<lparr>ltype = Removed, content = ''a''\<rparr>,
              \<lparr>ltype = Removed, content = ''b''\<rparr>]\<rparr>"

definition exResEmptied :: DiffCalculationResult where
  "exResEmptied = emptyResult\<lparr>inlineDeletedLineOptions :=
     [\<lparr>decoRange = \<lparr>startLine = 0, startCharacter = 0, endLine = 0, endCharacter = 0\<rparr>,
       contentText = Some ''- 1: a''\<rparr>,
      \<lparr>decoRange = \<lparr>startLine = 0, startCharacter = 0, endLine = 0, endCharacter = 0\<rparr>,
       contentText = Some ''- 2: b''\<rparr>]\<rparr>"

section \<open>Properties of the hand-written character differ\<close>

lemma prefixLoop_same_aux:
  "a = b \<Longrightarrow> p \<le> length a \<Longrightarrow> prefixLoop a b p = length a"
proof (induction a b p rule: prefixLoop.induct)
  case (1 a b p)
  show ?case
  proof (cases "p < length a")
    case True
    with 1 show ?thesis by (subst prefixLoop.simps) simp
  next
    case False
    with 1 show ?thesis by (subst prefixLoop.simps) simp
  qed
qed

lemma prefixLoop_same: "p \<le> length a \<Longrightarrow> prefixLoop a a p = length a"
  by (rule prefixLoop_same_aux) simp_all

lemma prefixLoop_Nil_left [simp]: "prefixLoop [] s 0 = 0"
  by (subst prefixLoop.simps) simp

lemma prefixLoop_Nil_right [simp]: "prefixLoop s [] 0 = 0"
  by (subst prefixLoop.simps) simp

lemma suffixLoop_zero_old [simp]: "suffixLoop a b 0 n 0 = 0"
  by (subst suffixLoop.simps) simp

lemma suffixLoop_zero_new [simp]: "suffixLoop a b n 0 0 = 0"
  by (subst suffixLoop.simps) simp

text \<open>
  C8. For a non-empty string \<open>s\<close>, \<open>diffStrings(s, s)\<close> is exactly one \<open>unchanged\<close> segment
  covering all of \<open>s\<close>, \<open>diffStrings('', s)\<close> is exactly one \<open>added\<close> segment covering all
  of \<open>s\<close>, and \<open>diffStrings(s, '')\<close> is exactly one \<open>removed\<close> segment covering all of \<open>s\<close>.
\<close>

theorem diffStrings_identical_and_empty:
  assumes "s \<noteq> []"
  shows "diffStrings_local s s = [\<lparr>stype = Unchanged, sstart = 0, send = length s\<rparr>]
       \<and> segmentText s s \<lparr>stype = Unchanged, sstart = 0, send = length s\<rparr> = s
       \<and> diffStrings_local [] s = [\<lparr>stype = Added, sstart = 0, send = length s\<rparr>]
       \<and> segmentText [] s \<lparr>stype = Added, sstart = 0, send = length s\<rparr> = s
       \<and> diffStrings_local s [] = [\<lparr>stype = Removed, sstart = 0, send = length s\<rparr>]
       \<and> segmentText s [] \<lparr>stype = Removed, sstart = 0, send = length s\<rparr> = s"
proof -
  have same: "prefixLoop s s 0 = length s"
    by (rule prefixLoop_same) simp
  have "diffStrings_local s s = [\<lparr>stype = Unchanged, sstart = 0, send = length s\<rparr>]"
    using assms by (simp add: diffStrings_local_def same)
  moreover have "diffStrings_local [] s = [\<lparr>stype = Added, sstart = 0, send = length s\<rparr>]"
    using assms by (simp add: diffStrings_local_def)
  moreover have "diffStrings_local s [] = [\<lparr>stype = Removed, sstart = 0, send = length s\<rparr>]"
    using assms by (simp add: diffStrings_local_def)
  ultimately show ?thesis
    by (simp add: segmentText_def substring_def)
qed

theorem diffStrings_identical_and_empty_witness:
  "diffStrings_local ''ab'' ''ab'' = [\<lparr>stype = Unchanged, sstart = 0, send = 2\<rparr>]
   \<and> diffStrings_local [] ''ab'' = [\<lparr>stype = Added, sstart = 0, send = 2\<rparr>]
   \<and> diffStrings_local ''ab'' [] = [\<lparr>stype = Removed, sstart = 0, send = 2\<rparr>]"
  using diffStrings_identical_and_empty [of "''ab''"] by simp

lemma prefixLoop_bounds:
  "p \<le> min (length a) (length b) \<Longrightarrow>
   p \<le> prefixLoop a b p \<and> prefixLoop a b p \<le> min (length a) (length b)"
proof (induction a b p rule: prefixLoop.induct)
  case (1 a b p)
  show ?case
  proof (cases "p < min (length a) (length b) \<and> a ! p = b ! p")
    case True
    then have "p + 1 \<le> prefixLoop a b (p + 1) \<and> prefixLoop a b (p + 1) \<le> min (length a) (length b)"
      using 1 by simp
    moreover have "prefixLoop a b p = prefixLoop a b (p + 1)"
      using True by (subst prefixLoop.simps) simp
    ultimately show ?thesis by simp
  next
    case False
    then have "prefixLoop a b p = p" by (subst prefixLoop.simps) auto
    with 1 show ?thesis by simp
  qed
qed

lemma prefixLoop_agree:
  "p \<le> min (length a) (length b) \<Longrightarrow> \<forall>i<p. a ! i = b ! i \<Longrightarrow>
   \<forall>i<prefixLoop a b p. a ! i = b ! i"
proof (induction a b p rule: prefixLoop.induct)
  case (1 a b p)
  show ?case
  proof (cases "p < min (length a) (length b) \<and> a ! p = b ! p")
    case True
    have "\<forall>i<p + 1. a ! i = b ! i"
      using True "1.prems"(2) by (auto simp: less_Suc_eq)
    then have "\<forall>i<prefixLoop a b (p + 1). a ! i = b ! i"
      using True "1.IH" by simp
    moreover have "prefixLoop a b p = prefixLoop a b (p + 1)"
      using True by (subst prefixLoop.simps) simp
    ultimately show ?thesis by simp
  next
    case False
    then have "prefixLoop a b p = p" by (subst prefixLoop.simps) auto
    with 1 show ?thesis by simp
  qed
qed

lemma prefix_take_eq: "take (prefixLoop a b 0) a = take (prefixLoop a b 0) b"
proof -
  let ?P = "prefixLoop a b 0"
  have b: "?P \<le> min (length a) (length b)" using prefixLoop_bounds [of 0 a b] by simp
  have e: "\<forall>i<?P. a ! i = b ! i" using prefixLoop_agree [of 0 a b] by simp
  show ?thesis
    by (rule nth_equalityI) (use b e in auto)
qed

lemma suffixLoop_bounds:
  "s \<le> os \<Longrightarrow> s \<le> ns \<Longrightarrow>
   s \<le> suffixLoop a b os ns s \<and> suffixLoop a b os ns s \<le> os \<and> suffixLoop a b os ns s \<le> ns"
proof (induction a b os ns s rule: suffixLoop.induct)
  case (1 a b os ns s)
  let ?c = "s < os \<and> s < ns \<and> a ! (length a - s - 1) = b ! (length b - s - 1)"
  show ?case
  proof (cases ?c)
    case True
    then have "s + 1 \<le> suffixLoop a b os ns (s + 1) \<and> suffixLoop a b os ns (s + 1) \<le> os
               \<and> suffixLoop a b os ns (s + 1) \<le> ns"
      using 1 by simp
    moreover have "suffixLoop a b os ns s = suffixLoop a b os ns (s + 1)"
      using True by (subst suffixLoop.simps) simp
    ultimately show ?thesis by simp
  next
    case False
    then have "suffixLoop a b os ns s = s" by (subst suffixLoop.simps) auto
    with 1 show ?thesis by simp
  qed
qed

lemma suffixLoop_agree:
  "\<forall>j<s. a ! (length a - j - 1) = b ! (length b - j - 1) \<Longrightarrow>
   \<forall>j<suffixLoop a b os ns s. a ! (length a - j - 1) = b ! (length b - j - 1)"
proof (induction a b os ns s rule: suffixLoop.induct)
  case (1 a b os ns s)
  let ?c = "s < os \<and> s < ns \<and> a ! (length a - s - 1) = b ! (length b - s - 1)"
  show ?case
  proof (cases ?c)
    case True
    have "\<forall>j<s + 1. a ! (length a - j - 1) = b ! (length b - j - 1)"
      using True "1.prems" by (auto simp: less_Suc_eq)
    then have "\<forall>j<suffixLoop a b os ns (s + 1). a ! (length a - j - 1) = b ! (length b - j - 1)"
      using True "1.IH" by simp
    moreover have "suffixLoop a b os ns s = suffixLoop a b os ns (s + 1)"
      using True by (subst suffixLoop.simps) simp
    ultimately show ?thesis by simp
  next
    case False
    then have "suffixLoop a b os ns s = s" by (subst suffixLoop.simps) auto
    with 1 show ?thesis by simp
  qed
qed

lemma drop_eq_of_suffix_agree:
  assumes "S \<le> length a" "S \<le> length b"
      and "\<forall>j<S. a ! (length a - j - 1) = b ! (length b - j - 1)"
  shows "drop (length a - S) a = drop (length b - S) b"
proof (rule nth_equalityI)
  show "length (drop (length a - S) a) = length (drop (length b - S) b)"
    using assms by simp
next
  fix i assume "i < length (drop (length a - S) a)"
  then have i: "i < S" using assms by simp
  then have j: "S - i - 1 < S" by simp
  have "a ! (length a - (S - i - 1) - 1) = b ! (length b - (S - i - 1) - 1)"
    using assms(3) j by blast
  moreover have "length a - (S - i - 1) - 1 = length a - S + i" using i assms by simp
  moreover have "length b - (S - i - 1) - 1 = length b - S + i" using i assms by simp
  ultimately show "drop (length a - S) a ! i = drop (length b - S) b ! i"
    using assms i by simp
qed

lemma split3: "P + S \<le> length a \<Longrightarrow>
  take P a @ take (length a - P - S) (drop P a) @ drop (length a - S) a = a"
proof -
  assume h: "P + S \<le> length a"
  have "take (length a - P - S) (drop P a) @ drop (length a - S) a = drop P a"
  proof -
    have "drop (length a - S) a = drop (length a - P - S) (drop P a)"
      using h by simp
    then show ?thesis by (metis append_take_drop_id)
  qed
  then show ?thesis by (metis append_take_drop_id)
qed

text \<open>
  C5. For every pair of strings \<open>(a, b)\<close>, the texts covered by the \<open>unchanged\<close> and
  \<open>removed\<close> segments of \<open>diffStrings(a, b)\<close>, concatenated in order, are \<open>a\<close>, and the
  texts covered by the \<open>unchanged\<close> and \<open>added\<close> segments, concatenated in order, are \<open>b\<close>.
  The text of a segment is read from the string its bounds are computed from
  (\<open>segmentText\<close>): the unchanged suffix is the same text in both strings and is recorded
  with its position in \<open>a\<close>.
\<close>

theorem diffStrings_reconstructs:
  "oldText a b (diffStrings_local a b) = a \<and> newText a b (diffStrings_local a b) = b"
proof -
  define P where "P = prefixLoop a b 0"
  define S where "S = suffixLoop a b (length a - P) (length b - P) 0"
  have Pb: "P \<le> length a" "P \<le> length b"
    using prefixLoop_bounds [of 0 a b] by (simp_all add: P_def)
  have Sb: "S \<le> length a - P" "S \<le> length b - P"
    using suffixLoop_bounds [of 0 "length a - P" "length b - P" a b] by (simp_all add: S_def)
  have pre: "take P a = take P b" unfolding P_def by (rule prefix_take_eq)
  have "\<forall>j<S. a ! (length a - j - 1) = b ! (length b - j - 1)"
    unfolding S_def by (rule suffixLoop_agree) simp
  then have suf: "drop (length a - S) a = drop (length b - S) b"
    using Sb by (intro drop_eq_of_suffix_agree) auto
  have a3: "take P a @ take (length a - P - S) (drop P a) @ drop (length a - S) a = a"
    using Pb Sb by (intro split3) auto
  have b3: "take P b @ take (length b - P - S) (drop P b) @ drop (length b - S) b = b"
    using Pb Sb by (intro split3) auto
  have ds: "diffStrings_local a b =
       (if P > 0 then [\<lparr>stype = Unchanged, sstart = 0, send = P\<rparr>] else [])
     @ (if length a - P - S > 0
          then [\<lparr>stype = Removed, sstart = P, send = P + (length a - P - S)\<rparr>] else [])
     @ (if length b - P - S > 0
          then [\<lparr>stype = Added, sstart = P, send = P + (length b - P - S)\<rparr>] else [])
     @ (if S > 0 then [\<lparr>stype = Unchanged, sstart = length a - S, send = length a\<rparr>] else [])"
    by (simp only: diffStrings_local_def Let_def P_def S_def)
  have sufa: "take S (drop (length a - S) a) = drop (length a - S) a"
    using Sb by simp
  have old: "oldText a b (diffStrings_local a b)
      = take P a @ take (length a - P - S) (drop P a) @ drop (length a - S) a"
    using sufa by (simp add: ds oldText_def segmentText_def substring_def add.commute)
  have new: "newText a b (diffStrings_local a b)
      = take P a @ take (length b - P - S) (drop P b) @ drop (length a - S) a"
    using sufa by (simp add: ds newText_def segmentText_def substring_def add.commute)
  show ?thesis
    using old new a3 b3 pre suf by simp
qed

section \<open>Properties of the annotation projector\<close>

subsection \<open>One line record\<close>

lemma linesLoop_append:
  "linesLoop d doc h (xs @ ys) st =
     (case linesLoop d doc h xs st of Inl e \<Rightarrow> Inl e | Inr st' \<Rightarrow> linesLoop d doc h ys st')"
  by (induction xs arbitrary: st) (auto split: sum.splits)

lemma processLine_unchanged:
  "ltype (lines hunk ! i) = Unchanged \<Longrightarrow>
   processLine d doc hunk i (res, e, o') = Inr (res, e + 1, o' + 1)"
  by (simp add: processLine_def)

lemma processLine_removed:
  "ltype (lines hunk ! i) = Removed \<Longrightarrow>
   processLine d doc hunk i (res, e, o') =
     Inr (res\<lparr>inlineDeletedLineOptions := inlineDeletedLineOptions res @
            (if isModification hunk i then []
             else ghosts doc e (oldStart hunk + o') (content (lines hunk ! i)))\<rparr>,
          e, o' + 1)"
  by (simp add: processLine_def ghosts_def ghostLine_def ghostAt_def lineAt_def lineCount_def
        formattedLine_def Let_def)

lemma processLine_added_beyond:
  "ltype (lines hunk ! i) = Added \<Longrightarrow> lineCount doc \<le> e \<Longrightarrow>
   processLine d doc hunk i (res, e, o') = Inr (res, e + 1, o')"
  by (simp add: processLine_def)

lemma processLine_added_negative:
  "ltype (lines hunk ! i) = Added \<Longrightarrow> e < 0 \<Longrightarrow>
   processLine d doc hunk i (res, e, o') = Inl IllegalLine"
  by (simp add: processLine_def lineAt_def lineCount_def)

lemma processLine_added_pure:
  "ltype (lines hunk ! i) = Added \<Longrightarrow> 0 \<le> e \<Longrightarrow> e < lineCount doc \<Longrightarrow>
   \<not> followsRemoved hunk i \<Longrightarrow>
   processLine d doc hunk i (res, e, o') =
     Inr (res\<lparr>decorationOptions := (decorationOptions res)
            \<lparr>addedLines := addedLines (decorationOptions res) @ [lineMark e],
             addedTexts := addedTexts (decorationOptions res) @ fullLineText doc e\<rparr>\<rparr>,
          e + 1, o')"
  by (simp add: processLine_def lineAt_def lineCount_def lineMark_def fullLineText_def Let_def)

lemma processLine_added_modification:
  "ltype (lines hunk ! i) = Added \<Longrightarrow> 0 \<le> e \<Longrightarrow> e < lineCount doc \<Longrightarrow>
   followsRemoved hunk i \<Longrightarrow>
   processLine d doc hunk i (res, e, o') =
     Inr (res\<lparr>decorationOptions :=
            (snd (foldl (walkChange e) (0, decorationOptions res)
                    (d (content (lines hunk ! (i - 1))) (content (lines hunk ! i)))))
            \<lparr>modifiedLines :=
               modifiedLines (snd (foldl (walkChange e) (0, decorationOptions res)
                    (d (content (lines hunk ! (i - 1))) (content (lines hunk ! i))))) @ [lineMark e]\<rparr>\<rparr>,
          e + 1, o')"
  by (simp add: processLine_def lineAt_def lineCount_def lineMark_def diffStrings_def Let_def)


lemma columnBefore_snoc_lt:
  "k \<le> length cs \<Longrightarrow> columnBefore (cs @ [c]) k = columnBefore cs k"
  by (simp add: columnBefore_def)

lemma columnBefore_snoc_all:
  "columnBefore (cs @ [c]) (Suc (length cs)) =
     columnBefore cs (length cs) + (if isDeleted c then 0 else int (length (cvalue c)))"
  by (simp add: columnBefore_def)

lemma insertedRanges_snoc:
  "insertedRanges n (cs @ [c]) =
     insertedRanges n cs @
       (if isInserted c
        then [\<lparr>decoRange = \<lparr>startLine = n, startCharacter = columnBefore cs (length cs),
                 endLine = n,
                 endCharacter = columnBefore cs (length cs) + int (length (cvalue c))\<rparr>,
               contentText = None\<rparr>]
        else [])"
proof -
  have f: "filter (\<lambda>k. isInserted ((cs @ [c]) ! k)) [0..<length cs]
         = filter (\<lambda>k. isInserted (cs ! k)) [0..<length cs]"
    by (rule filter_cong) (auto simp: nth_append)
  have m: "map (insertedRange n (cs @ [c])) (filter (\<lambda>k. isInserted (cs ! k)) [0..<length cs])
         = map (insertedRange n cs) (filter (\<lambda>k. isInserted (cs ! k)) [0..<length cs])"
    by (rule map_cong) (auto simp: insertedRange_def nth_append columnBefore_snoc_lt)
  show ?thesis
    using f m by (simp add: insertedRanges_def insertedRange_def columnBefore_snoc_lt)
qed

lemma deletedMarkers_snoc:
  "deletedMarkers n (cs @ [c]) =
     deletedMarkers n cs @
       (if isDeleted c
        then [\<lparr>decoRange = \<lparr>startLine = n, startCharacter = columnBefore cs (length cs),
                 endLine = n, endCharacter = columnBefore cs (length cs)\<rparr>,
               contentText = Some (cvalue c)\<rparr>]
        else [])"
proof -
  have f: "filter (\<lambda>k. isDeleted ((cs @ [c]) ! k)) [0..<length cs]
         = filter (\<lambda>k. isDeleted (cs ! k)) [0..<length cs]"
    by (rule filter_cong) (auto simp: nth_append)
  have m: "map (deletedMarker n (cs @ [c])) (filter (\<lambda>k. isDeleted (cs ! k)) [0..<length cs])
         = map (deletedMarker n cs) (filter (\<lambda>k. isDeleted (cs ! k)) [0..<length cs])"
    by (rule map_cong) (auto simp: deletedMarker_def nth_append columnBefore_snoc_lt)
  show ?thesis
    using f m by (simp add: deletedMarkers_def deletedMarker_def columnBefore_snoc_lt)
qed

lemma walk_changes:
  "foldl (walkChange n) (0, opts) cs =
     (columnBefore cs (length cs),
      opts\<lparr>addedTexts := addedTexts opts @ insertedRanges n cs,
           deletedCharacterMarkers := deletedCharacterMarkers opts @ deletedMarkers n cs\<rparr>)"
proof (induction cs rule: rev_induct)
  case Nil
  show ?case by (simp add: columnBefore_def insertedRanges_def deletedMarkers_def)
next
  case (snoc c cs)
  show ?case
    by (simp add: snoc insertedRanges_snoc deletedMarkers_snoc columnBefore_snoc_all
          isInserted_def isDeleted_def Let_def)
qed

subsection \<open>The bundle as the sum of the records\<close>

lemma editorLineAt_0: "editorLineAt h 0 = newStart h - 1"
  by (simp add: editorLineAt_def)

lemma oldCursorAt_0: "oldCursorAt h 0 = 0"
  by (simp add: oldCursorAt_def)

lemma editorLineAt_Suc:
  "i < length (lines h) \<Longrightarrow>
   editorLineAt h (Suc i) = editorLineAt h i + (if ltype (lines h ! i) = Removed then 0 else 1)"
  by (simp add: editorLineAt_def take_Suc_conv_app_nth)

lemma oldCursorAt_Suc:
  "i < length (lines h) \<Longrightarrow>
   oldCursorAt h (Suc i) = oldCursorAt h i + (if ltype (lines h ! i) = Added then 0 else 1)"
  by (simp add: oldCursorAt_def take_Suc_conv_app_nth)

lemma appendBundle_same [simp]:
  "appendBundle r emptyResult = r"
  by (simp add: appendBundle_def emptyResult_def)

lemma recordBundle_code:
  "recordBundle d doc h i =
     \<lparr>decorationOptions =
        \<lparr>addedLines =
           (if ltype (lines h ! i) = Added \<and> \<not> followsRemoved h i \<and> inBounds doc (editorLineAt h i)
            then [lineMark (editorLineAt h i)] else []),
         modifiedLines =
           (if ltype (lines h ! i) = Added \<and> followsRemoved h i \<and> inBounds doc (editorLineAt h i)
            then [lineMark (editorLineAt h i)] else []),
         addedTexts =
           (if ltype (lines h ! i) = Added \<and> inBounds doc (editorLineAt h i) then
              (if followsRemoved h i
               then insertedRanges (editorLineAt h i)
                      (d (content (lines h ! (i - 1))) (content (lines h ! i)))
               else fullLineText doc (editorLineAt h i))
            else []),
         deletedCharacterMarkers =
           (if ltype (lines h ! i) = Added \<and> followsRemoved h i \<and> inBounds doc (editorLineAt h i)
            then deletedMarkers (editorLineAt h i)
                   (d (content (lines h ! (i - 1))) (content (lines h ! i)))
            else [])\<rparr>,
      inlineDeletedLineOptions =
        (if ltype (lines h ! i) = Removed \<and> \<not> isModification h i
         then ghosts doc (editorLineAt h i) (oldStart h + oldCursorAt h i) (content (lines h ! i))
         else [])\<rparr>"
  unfolding recordBundle_def addedLineAt_def modifiedLineAt_def addedTextsAt_def markersAt_def
    ghostsAt_def followsRemoved_def isModification_def diffStrings_def
  by (rule refl)

text \<open>One turn of the loop over the records, at the cursors of the record.\<close>

lemma processLine_recordBundle:
  assumes i: "i < length (lines h)"
  shows "processLine d doc h i (res, editorLineAt h i, oldCursorAt h i) =
           (if ltype (lines h ! i) = Added \<and> editorLineAt h i < 0 then Inl IllegalLine
            else Inr (appendBundle res (recordBundle d doc h i),
                      editorLineAt h (Suc i), oldCursorAt h (Suc i)))"
proof (cases "ltype (lines h ! i)")
  case Added
  let ?e = "editorLineAt h i"
  have c: "editorLineAt h (Suc i) = ?e + 1" "oldCursorAt h (Suc i) = oldCursorAt h i"
    using Added i by (simp_all add: editorLineAt_Suc oldCursorAt_Suc)
  consider "?e < 0" | "lineCount doc \<le> ?e" "0 \<le> ?e"
    | "0 \<le> ?e" "?e < lineCount doc" "followsRemoved h i"
    | "0 \<le> ?e" "?e < lineCount doc" "\<not> followsRemoved h i"
    by linarith
  then show ?thesis
  proof cases
    case 1
    then show ?thesis using Added by (simp add: processLine_added_negative)
  next
    case 2
    then have "recordBundle d doc h i = emptyResult"
      using Added by (simp add: recordBundle_code emptyResult_def inBounds_def)
    then show ?thesis
      using 2 Added by (simp add: processLine_added_beyond c)
  next
    case 3
    have rb: "recordBundle d doc h i =
       \<lparr>decorationOptions =
          \<lparr>addedLines = [], modifiedLines = [lineMark ?e],
           addedTexts = insertedRanges ?e (d (content (lines h ! (i - 1))) (content (lines h ! i))),
           deletedCharacterMarkers =
             deletedMarkers ?e (d (content (lines h ! (i - 1))) (content (lines h ! i)))\<rparr>,
        inlineDeletedLineOptions = []\<rparr>"
      using 3 Added by (simp add: recordBundle_code inBounds_def)
    show ?thesis
      using 3 Added
      by (simp add: processLine_added_modification walk_changes c rb appendBundle_def)
  next
    case 4
    have rb: "recordBundle d doc h i =
       \<lparr>decorationOptions =
          \<lparr>addedLines = [lineMark ?e], modifiedLines = [],
           addedTexts = fullLineText doc ?e, deletedCharacterMarkers = []\<rparr>,
        inlineDeletedLineOptions = []\<rparr>"
      using 4 Added by (simp add: recordBundle_code inBounds_def)
    show ?thesis
      using 4 Added
      by (simp add: processLine_added_pure c rb appendBundle_def)
  qed
next
  case Removed
  have c: "editorLineAt h (Suc i) = editorLineAt h i" "oldCursorAt h (Suc i) = oldCursorAt h i + 1"
    using Removed i by (simp_all add: editorLineAt_Suc oldCursorAt_Suc)
  have rb: "recordBundle d doc h i =
       \<lparr>decorationOptions =
          \<lparr>addedLines = [], modifiedLines = [], addedTexts = [], deletedCharacterMarkers = []\<rparr>,
        inlineDeletedLineOptions =
          (if isModification h i then []
           else ghosts doc (editorLineAt h i) (oldStart h + oldCursorAt h i)
                  (content (lines h ! i)))\<rparr>"
    using Removed by (simp add: recordBundle_code)
  show ?thesis
    using Removed by (simp add: processLine_removed c rb appendBundle_def)
next
  case Unchanged
  have c: "editorLineAt h (Suc i) = editorLineAt h i + 1"
    "oldCursorAt h (Suc i) = oldCursorAt h i + 1"
    using Unchanged i by (simp_all add: editorLineAt_Suc oldCursorAt_Suc)
  have "recordBundle d doc h i = emptyResult"
    using Unchanged by (simp add: recordBundle_code emptyResult_def)
  then show ?thesis
    using Unchanged by (simp add: processLine_unchanged c)
qed


lemma linesLoop_prefix:
  "k \<le> length (lines h) \<Longrightarrow>
   linesLoop d doc h [0..<k] (res, editorLineAt h 0, oldCursorAt h 0) =
     (if list_all (\<lambda>i. ltype (lines h ! i) \<noteq> Added \<or> 0 \<le> editorLineAt h i) [0..<k]
      then Inr (foldl appendBundle res (map (recordBundle d doc h) [0..<k]),
                editorLineAt h k, oldCursorAt h k)
      else Inl IllegalLine)"
proof (induction k)
  case 0
  show ?case by simp
next
  case (Suc k)
  have k: "k < length (lines h)" using Suc.prems by simp
  have ih: "linesLoop d doc h [0..<k] (res, editorLineAt h 0, oldCursorAt h 0) =
     (if list_all (\<lambda>i. ltype (lines h ! i) \<noteq> Added \<or> 0 \<le> editorLineAt h i) [0..<k]
      then Inr (foldl appendBundle res (map (recordBundle d doc h) [0..<k]),
                editorLineAt h k, oldCursorAt h k)
      else Inl IllegalLine)"
    using Suc by simp
  have u: "[0..<Suc k] = [0..<k] @ [k]" by simp
  show ?case
    unfolding u linesLoop_append ih
    by (simp add: processLine_recordBundle [OF k] not_less)
qed

lemma processHunk_hunkBundle:
  "processHunk d doc res h =
     (if runsThrough h then Inr (hunkBundle d doc res h) else Inl IllegalLine)"
  using linesLoop_prefix [of "length (lines h)" h d doc res]
  by (simp add: processHunk_def runsThrough_def hunkBundle_def editorLineAt_0 oldCursorAt_0)

lemma hunksLoop_hunkBundle:
  "hunksLoop d doc hunks res =
     (if list_all runsThrough hunks then Inr (foldl (hunkBundle d doc) res hunks)
      else Inl IllegalLine)"
  by (induction hunks arbitrary: res) (simp_all add: processHunk_hunkBundle)

lemma calculateDecorations_bundle:
  "calculateDecorations d hunks doc =
     (if list_all runsThrough hunks then Inr (foldl (hunkBundle d doc) emptyResult hunks)
      else Inl IllegalLine)"
  by (simp add: calculateDecorations_def hunksLoop_hunkBundle)

text \<open>A list of the bundle, read off a run of the loops.\<close>

lemma field_foldl_appendBundle:
  assumes "\<And>r c. g (appendBundle r c) = g r @ g c"
  shows "g (foldl appendBundle r bs) = g r @ concat (map g bs)"
  by (induction bs arbitrary: r) (simp_all add: assms)

lemma field_hunkBundle:
  assumes "\<And>r c. g (appendBundle r c) = g r @ g c"
  shows "g (hunkBundle d doc r h)
           = g r @ concat (map (\<lambda>i. g (recordBundle d doc h i)) [0..<length (lines h)])"
  unfolding hunkBundle_def field_foldl_appendBundle [of g, OF assms]
  by (simp add: comp_def)

lemma field_foldl_hunkBundle:
  assumes "\<And>r c. g (appendBundle r c) = g r @ g c"
  shows "g (foldl (hunkBundle d doc) r hunks)
           = g r @ collect (\<lambda>h i. g (recordBundle d doc h i)) hunks"
proof (induction hunks arbitrary: r)
  case Nil
  show ?case by (simp add: collect_def)
next
  case (Cons h hunks)
  show ?case
    by (simp add: Cons field_hunkBundle [of g, OF assms] collect_def)
qed

lemma calculateDecorations_lists:
  assumes "calculateDecorations d hunks doc = Inr res"
  shows "addedLines (decorationOptions res) = collect (addedLineAt doc) hunks"
    and "modifiedLines (decorationOptions res) = collect (modifiedLineAt doc) hunks"
    and "addedTexts (decorationOptions res) = collect (addedTextsAt d doc) hunks"
    and "deletedCharacterMarkers (decorationOptions res) = collect (markersAt d doc) hunks"
    and "inlineDeletedLineOptions res = collect (ghostsAt doc) hunks"
proof -
  have r: "res = foldl (hunkBundle d doc) emptyResult hunks"
    using assms by (simp add: calculateDecorations_bundle split: if_splits)
  show "addedLines (decorationOptions res) = collect (addedLineAt doc) hunks"
    unfolding r
    by (subst field_foldl_hunkBundle [of "\<lambda>r. addedLines (decorationOptions r)"])
       (simp_all add: appendBundle_def recordBundle_def emptyResult_def)
  show "modifiedLines (decorationOptions res) = collect (modifiedLineAt doc) hunks"
    unfolding r
    by (subst field_foldl_hunkBundle [of "\<lambda>r. modifiedLines (decorationOptions r)"])
       (simp_all add: appendBundle_def recordBundle_def emptyResult_def)
  show "addedTexts (decorationOptions res) = collect (addedTextsAt d doc) hunks"
    unfolding r
    by (subst field_foldl_hunkBundle [of "\<lambda>r. addedTexts (decorationOptions r)"])
       (simp_all add: appendBundle_def recordBundle_def emptyResult_def)
  show "deletedCharacterMarkers (decorationOptions res) = collect (markersAt d doc) hunks"
    unfolding r
    by (subst field_foldl_hunkBundle [of "\<lambda>r. deletedCharacterMarkers (decorationOptions r)"])
       (simp_all add: appendBundle_def recordBundle_def emptyResult_def)
  show "inlineDeletedLineOptions res = collect (ghostsAt doc) hunks"
    unfolding r
    by (subst field_foldl_hunkBundle [of inlineDeletedLineOptions])
       (simp_all add: appendBundle_def recordBundle_def emptyResult_def)
qed

lemma calculateDecorations_returns:
  "(\<exists>res. calculateDecorations d hunks doc = Inr res) \<longleftrightarrow> list_all runsThrough hunks"
  by (simp add: calculateDecorations_bundle)

subsection \<open>The projector on the example inputs\<close>

lemma calculateDecorations_exHunkBeyond:
  "calculateDecorations trimDiffer [exHunkBeyond] [''u''] = Inr emptyResult"
  by code_simp

lemma calculateDecorations_exHunkRun:
  "calculateDecorations trimDiffer [exHunkRun] exDocRun = Inr exResRun"
  by code_simp



lemma calculateDecorations_exHunkStale:
  "calculateDecorations trimDiffer [exHunkStale] [''ab''] = Inr exResStale"
  by code_simp

lemma collect_exHunkRun:
  "collect (modifiedLineAt exDocRun) [exHunkRun] = [lineMark 1]"
  "collect (addedLineAt exDocRun) [exHunkRun] = [lineMark 2]"
  "collect (ghostsAt exDocRun) [exHunkRun] = [ghostAt exDocRun 0 2 ''p'']"
  by code_simp+

subsection \<open>Modification pairs\<close>






subsection \<open>The pairing rule\<close>

text \<open>
  The claim C1 as stated fails when the editor line of the added record is not a line of
  the document: with the records \<open>u\<close>, \<open>-p\<close>, \<open>+q\<close> over the one-line document \<open>u\<close> the
  removed record is absorbed by the added one, whose editor line 1 is beyond the
  document, and the pair gives no whole-line-modified annotation: the bundle is empty.
\<close>

theorem pairing_out_of_bounds_counterexample:
  "calculateDecorations trimDiffer [exHunkBeyond] [''u''] = Inr emptyResult
   \<and> ltype (lines exHunkBeyond ! 1) = Removed \<and> ltype (lines exHunkBeyond ! 2) = Added
   \<and> modifiedLines (decorationOptions emptyResult) = []"
proof -
  have t: "ltype (lines exHunkBeyond ! 1) = Removed \<and> ltype (lines exHunkBeyond ! 2) = Added"
    by (simp add: exHunkBeyond_def)
  have m: "modifiedLines (decorationOptions emptyResult) = []"
    by (simp add: emptyResult_def)
  show ?thesis
    using calculateDecorations_exHunkBeyond t m by (simp only: simp_thms)
qed

text \<open>The cursors and the records inside a run of removed records followed by added records.\<close>

lemma run_records:
  assumes L: "lines h = pre @ rs @ as @ post"
      and rs: "list_all (\<lambda>r. ltype r = Removed) rs"
      and as: "list_all (\<lambda>r. ltype r = Added) as"
      and j: "j < length rs + length as"
  shows "lines h ! (length pre + j) = (if j < length rs then rs ! j else as ! (j - length rs))"
    and "ltype (lines h ! (length pre + j)) = (if j < length rs then Removed else Added)"
    and "editorLineAt h (length pre + j) = editorLineAt h (length pre) + int (j - length rs)"
    and "oldCursorAt h (length pre + j) = oldCursorAt h (length pre) + int (min j (length rs))"
proof -
  show at: "lines h ! (length pre + j) = (if j < length rs then rs ! j else as ! (j - length rs))"
    using j by (simp add: L nth_append)
  show "ltype (lines h ! (length pre + j)) = (if j < length rs then Removed else Added)"
  proof (cases "j < length rs")
    case True
    then have "rs ! j \<in> set rs" by simp
    then show ?thesis using True rs at by (simp add: list_all_iff)
  next
    case False
    then have "as ! (j - length rs) \<in> set as" using j by simp
    then show ?thesis using False as at by (simp add: list_all_iff)
  qed
  have t: "take (length pre + j) (lines h)
      = pre @ take j rs @ take (j - length rs) as"
    using j by (simp add: L)
  have fr: "filter (\<lambda>r. ltype r \<noteq> Removed) (take j rs) = []"
    using rs by (auto simp: list_all_iff filter_empty_conv dest: in_set_takeD)
  have fa: "filter (\<lambda>r. ltype r \<noteq> Removed) (take (j - length rs) as) = take (j - length rs) as"
    using as by (auto simp: list_all_iff filter_id_conv dest: in_set_takeD)
  have gr: "filter (\<lambda>r. ltype r \<noteq> Added) (take j rs) = take j rs"
    using rs by (auto simp: list_all_iff filter_id_conv dest: in_set_takeD)
  have ga: "filter (\<lambda>r. ltype r \<noteq> Added) (take (j - length rs) as) = []"
    using as by (auto simp: list_all_iff filter_empty_conv dest: in_set_takeD)
  have p: "take (length pre) (lines h) = pre" by (simp add: L)
  show "editorLineAt h (length pre + j) = editorLineAt h (length pre) + int (j - length rs)"
    unfolding editorLineAt_def t p using j by (simp add: fr fa)
  show "oldCursorAt h (length pre + j) = oldCursorAt h (length pre) + int (min j (length rs))"
    unfolding oldCursorAt_def t p by (simp add: gr ga)
qed


lemma run_contributions:
  assumes L: "lines h = pre @ rs @ as @ post"
      and ne: "rs \<noteq> []" "as \<noteq> []"
      and rs: "list_all (\<lambda>r. ltype r = Removed) rs"
      and as: "list_all (\<lambda>r. ltype r = Added) as"
      and j: "j < length rs + length as"
  shows "modifiedLineAt doc h (length pre + j) =
           (if j = length rs \<and> inBounds doc (editorLineAt h (length pre))
            then [lineMark (editorLineAt h (length pre))] else [])"
    and "addedLineAt doc h (length pre + j) =
           (if length rs < j \<and> inBounds doc (editorLineAt h (length pre) + int (j - length rs))
            then [lineMark (editorLineAt h (length pre) + int (j - length rs))] else [])"
    and "ghostsAt doc h (length pre + j) =
           (if j + 1 < length rs
            then ghosts doc (editorLineAt h (length pre))
                   (oldStart h + oldCursorAt h (length pre) + int j) (content (rs ! j))
            else [])"
proof -
  define a where "a = length pre"
  define N where "N = length rs"
  note rr = run_records [OF L rs as, folded a_def N_def]
  have Npos: "0 < N" using ne(1) by (simp add: N_def)
  have jb: "j < N + length as" using j by (simp add: N_def)
  have ty: "ltype (lines h ! (a + j)) = (if j < N then Removed else Added)"
    using rr(2) [of j] jb by (simp add: N_def)
  have e: "editorLineAt h (a + j) = editorLineAt h a + int (j - N)"
    using rr(3) [of j] jb by (simp add: N_def)
  have o: "oldCursorAt h (a + j) = oldCursorAt h a + int (min j N)"
    using rr(4) [of j] jb by (simp add: N_def)
  have prev: "ltype (lines h ! (a + j - 1)) = (if j \<le> N then Removed else Added)" if "0 < j"
  proof -
    have i: "a + j - 1 = a + (j - 1)" using that by simp
    have "j - 1 < N + length as" using jb by simp
    then have "ltype (lines h ! (a + (j - 1))) = (if j - 1 < N then Removed else Added)"
      using rr(2) [of "j - 1"] by (simp add: N_def)
    then show ?thesis unfolding i using that by auto
  qed
  have prev0: "\<not> (0 < a + j \<and> ltype (lines h ! (a + j - 1)) = Removed)" if "N < j"
    using prev [of] that by simp
  have prevN: "0 < a + j \<and> ltype (lines h ! (a + j - 1)) = Removed" if "j = N"
    using prev that Npos by simp
  have "modifiedLineAt doc h (a + j) =
           (if j = N \<and> inBounds doc (editorLineAt h a) then [lineMark (editorLineAt h a)] else [])"
  proof -
    consider "j < N" | "j = N" | "N < j" by linarith
    then show ?thesis
    proof cases
      case 1
      then show ?thesis using ty by (simp add: modifiedLineAt_def)
    next
      case 2
      then show ?thesis using ty e prevN by (simp add: modifiedLineAt_def)
    next
      case 3
      then show ?thesis using ty prev0 by (simp add: modifiedLineAt_def)
    qed
  qed
  then show "modifiedLineAt doc h (length pre + j) =
           (if j = length rs \<and> inBounds doc (editorLineAt h (length pre))
            then [lineMark (editorLineAt h (length pre))] else [])"
    by (simp only: a_def N_def)
  have "addedLineAt doc h (a + j) =
           (if N < j \<and> inBounds doc (editorLineAt h a + int (j - N))
            then [lineMark (editorLineAt h a + int (j - N))] else [])"
  proof -
    consider "j < N" | "j = N" | "N < j" by linarith
    then show ?thesis
    proof cases
      case 1
      then show ?thesis using ty by (simp add: addedLineAt_def)
    next
      case 2
      then show ?thesis using ty prevN by (simp add: addedLineAt_def)
    next
      case 3
      then show ?thesis using ty e prev0 by (simp add: addedLineAt_def)
    qed
  qed
  then show "addedLineAt doc h (length pre + j) =
           (if length rs < j \<and> inBounds doc (editorLineAt h (length pre) + int (j - length rs))
            then [lineMark (editorLineAt h (length pre) + int (j - length rs))] else [])"
    by (simp only: a_def N_def)
  have "ghostsAt doc h (a + j) =
           (if j + 1 < N
            then ghosts doc (editorLineAt h a) (oldStart h + oldCursorAt h a + int j)
                   (content (rs ! j))
            else [])"
  proof -
    have len: "length (lines h) = a + N + length as + length post"
      by (simp add: L a_def N_def)
    consider "j + 1 < N" | "j + 1 = N" | "N \<le> j" by linarith
    then show ?thesis
    proof cases
      case 1
      have "ltype (lines h ! (a + (j + 1))) = Removed"
        using rr(2) [of "j + 1"] 1 jb by (simp add: N_def)
      then have nx: "ltype (lines h ! (a + j + 1)) = Removed" by (simp add: add.assoc)
      have c: "lines h ! (a + j) = rs ! j"
        using rr(1) [of j] 1 jb by (simp add: N_def)
      show ?thesis
        using 1 ty e o nx c by (simp add: ghostsAt_def add.assoc)
    next
      case 2
      have pos: "0 < length as" using ne(2) by simp
      then have aN: "ltype (lines h ! (a + N)) = Added"
        using rr(2) [of N] by simp
      have ix: "a + j + 1 = a + N" using 2 by simp
      have nx: "ltype (lines h ! (a + j + 1)) = Added"
        unfolding ix by (rule aN)
      have "a + j + 1 < length (lines h)" using len 2 pos by simp
      then show ?thesis
        using 2 ty nx by (simp add: ghostsAt_def)
    next
      case 3
      then show ?thesis using ty by (simp add: ghostsAt_def)
    qed
  qed
  then show "ghostsAt doc h (length pre + j) =
           (if j + 1 < length rs
            then ghosts doc (editorLineAt h (length pre))
                   (oldStart h + oldCursorAt h (length pre) + int j) (content (rs ! j))
            else [])"
    by (simp only: a_def N_def)
qed

text \<open>
  C1, amended. Whenever \<open>calculateDecorations\<close> returns (it does unless an added record has
  a negative editor line), the whole-line-modified annotations, the whole-line-added
  annotations and the deleted-line descriptors of the bundle are, in order, what the
  records of the hunks give by the local pairing rule: an added record is a modification
  exactly when the record right before it is removed, and gives one whole-line-modified
  annotation and no whole-line-added one if its editor line is a line of the document;
  any other added record gives one whole-line-added annotation if its editor line is a
  line of the document; a removed record is absorbed exactly when the record right after
  it is added, and is a pure deletion otherwise. So in a run of \<open>N\<close> removed records
  followed by \<open>M\<close> added records (\<open>N, M \<ge> 1\<close>) only the last removed record pairs with
  the first added one: the first added record gives the one whole-line-modified
  annotation (if its editor line is in bounds), each later added record a
  whole-line-added one (if its own editor line is in bounds), each removed record before
  the last the descriptors of a pure deletion, and the last removed record nothing.
\<close>

theorem local_pairing_rule:
  "(list_all runsThrough hunks \<longrightarrow> (\<exists>r. calculateDecorations d hunks doc = Inr r))
   \<and> (calculateDecorations d hunks doc = Inr res \<longrightarrow>
        modifiedLines (decorationOptions res) = collect (modifiedLineAt doc) hunks
      \<and> addedLines (decorationOptions res) = collect (addedLineAt doc) hunks
      \<and> inlineDeletedLineOptions res = collect (ghostsAt doc) hunks)
   \<and> (lines h = pre @ rs @ as @ post \<and> rs \<noteq> [] \<and> as \<noteq> []
        \<and> list_all (\<lambda>r. ltype r = Removed) rs \<and> list_all (\<lambda>r. ltype r = Added) as
        \<and> j < length rs + length as \<longrightarrow>
        modifiedLineAt doc h (length pre + j) =
           (if j = length rs \<and> inBounds doc (editorLineAt h (length pre))
            then [lineMark (editorLineAt h (length pre))] else [])
      \<and> addedLineAt doc h (length pre + j) =
           (if length rs < j \<and> inBounds doc (editorLineAt h (length pre) + int (j - length rs))
            then [lineMark (editorLineAt h (length pre) + int (j - length rs))] else [])
      \<and> ghostsAt doc h (length pre + j) =
           (if j + 1 < length rs
            then ghosts doc (editorLineAt h (length pre))
                   (oldStart h + oldCursorAt h (length pre) + int j) (content (rs ! j))
            else []))"
proof (intro conjI impI)
  assume "list_all runsThrough hunks"
  then show "\<exists>r. calculateDecorations d hunks doc = Inr r"
    by (simp add: calculateDecorations_returns)
next
  assume c: "calculateDecorations d hunks doc = Inr res"
  show "modifiedLines (decorationOptions res) = collect (modifiedLineAt doc) hunks"
    by (rule calculateDecorations_lists [OF c])
  show "addedLines (decorationOptions res) = collect (addedLineAt doc) hunks"
    by (rule calculateDecorations_lists [OF c])
  show "inlineDeletedLineOptions res = collect (ghostsAt doc) hunks"
    by (rule calculateDecorations_lists [OF c])
next
  assume r: "lines h = pre @ rs @ as @ post \<and> rs \<noteq> [] \<and> as \<noteq> []
        \<and> list_all (\<lambda>r. ltype r = Removed) rs \<and> list_all (\<lambda>r. ltype r = Added) as
        \<and> j < length rs + length as"
  have r1: "lines h = pre @ rs @ as @ post" and r2: "rs \<noteq> []" and r3: "as \<noteq> []"
    and r4: "list_all (\<lambda>r. ltype r = Removed) rs" and r5: "list_all (\<lambda>r. ltype r = Added) as"
    and r6: "j < length rs + length as"
    using r by simp_all
  show "modifiedLineAt doc h (length pre + j) =
           (if j = length rs \<and> inBounds doc (editorLineAt h (length pre))
            then [lineMark (editorLineAt h (length pre))] else [])"
    by (rule run_contributions [OF r1 r2 r3 r4 r5 r6])
  show "addedLineAt doc h (length pre + j) =
           (if length rs < j \<and> inBounds doc (editorLineAt h (length pre) + int (j - length rs))
            then [lineMark (editorLineAt h (length pre) + int (j - length rs))] else [])"
    by (rule run_contributions [OF r1 r2 r3 r4 r5 r6])
  show "ghostsAt doc h (length pre + j) =
           (if j + 1 < length rs
            then ghosts doc (editorLineAt h (length pre))
                   (oldStart h + oldCursorAt h (length pre) + int j) (content (rs ! j))
            else [])"
    by (rule run_contributions [OF r1 r2 r3 r4 r5 r6])
qed


lemma exHunkRun_facts:
  "list_all runsThrough [exHunkRun]"
  "editorLineAt exHunkRun (Suc 0) = 1"
  "inBounds exDocRun 1"
  by code_simp+

theorem local_pairing_rule_witness:
  "calculateDecorations trimDiffer [exHunkRun] exDocRun = Inr exResRun
   \<and> modifiedLines (decorationOptions exResRun) = [lineMark 1]
   \<and> addedLines (decorationOptions exResRun) = [lineMark 2]
   \<and> inlineDeletedLineOptions exResRun = [ghostAt exDocRun 0 2 ''p'']
   \<and> modifiedLineAt exDocRun exHunkRun 3 = [lineMark 1]
   \<and> addedLineAt exDocRun exHunkRun 3 = []
   \<and> ghostsAt exDocRun exHunkRun 3 = []"
proof -
  let ?pre = "[\<lparr>ltype = Unchanged, content = ''u''\<rparr>]"
  let ?rs = "[\<lparr>ltype = Removed, content = ''p''\<rparr>, \<lparr>ltype = Removed, content = ''q''\<rparr>]"
  let ?as = "[\<lparr>ltype = Added, content = ''r''\<rparr>, \<lparr>ltype = Added, content = ''s''\<rparr>]"
  have run: "lines exHunkRun = ?pre @ ?rs @ ?as @ [] \<and> ?rs \<noteq> [] \<and> ?as \<noteq> []
        \<and> list_all (\<lambda>r. ltype r = Removed) ?rs \<and> list_all (\<lambda>r. ltype r = Added) ?as
        \<and> 2 < length ?rs + length ?as"
    by (simp add: exHunkRun_def)
  note t = local_pairing_rule [of "[exHunkRun]" trimDiffer exDocRun exResRun exHunkRun
             ?pre ?rs ?as "[]" 2]
  have c: "calculateDecorations trimDiffer [exHunkRun] exDocRun = Inr exResRun"
    by (rule calculateDecorations_exHunkRun)
  have lists: "modifiedLines (decorationOptions exResRun) = collect (modifiedLineAt exDocRun) [exHunkRun]
      \<and> addedLines (decorationOptions exResRun) = collect (addedLineAt exDocRun) [exHunkRun]
      \<and> inlineDeletedLineOptions exResRun = collect (ghostsAt exDocRun) [exHunkRun]"
    using t c by blast
  have rec: "modifiedLineAt exDocRun exHunkRun (length ?pre + 2) =
           (if 2 = length ?rs \<and> inBounds exDocRun (editorLineAt exHunkRun (length ?pre))
            then [lineMark (editorLineAt exHunkRun (length ?pre))] else [])
      \<and> addedLineAt exDocRun exHunkRun (length ?pre + 2) =
           (if length ?rs < 2
                \<and> inBounds exDocRun (editorLineAt exHunkRun (length ?pre) + int (2 - length ?rs))
            then [lineMark (editorLineAt exHunkRun (length ?pre) + int (2 - length ?rs))] else [])
      \<and> ghostsAt exDocRun exHunkRun (length ?pre + 2) =
           (if 2 + 1 < length ?rs
            then ghosts exDocRun (editorLineAt exHunkRun (length ?pre))
                   (oldStart exHunkRun + oldCursorAt exHunkRun (length ?pre) + int 2) (content (?rs ! 2))
            else [])"
    using t run by blast
  have three: "length ?pre + 2 = 3" by simp
  show ?thesis
    using c lists rec unfolding three
    by (simp add: collect_exHunkRun exHunkRun_facts)
qed

subsection \<open>Pure deletions\<close>




subsection \<open>Bounds\<close>

text \<open>
  The claim C4 as stated fails for columns: the columns of the annotations of a
  modification pair come from the character diff of the two recorded contents and are
  never compared with the live line. Here the live line is \<open>ab\<close> and the inserted-text
  range is \<open>[2, 4)\<close>.
\<close>

theorem out_of_range_column_counterexample:
  "calculateDecorations trimDiffer [exHunkStale] [''ab''] = Inr exResStale
   \<and> \<not> list_all (withinDocument [''ab'']) (annotations exResStale)"
  by (simp add: calculateDecorations_exHunkStale annotations_def exResStale_def
        withinDocument_def onDocumentLine_def lineCount_def)

lemma list_all_collect:
  assumes "\<And>h i. list_all P (f h i)"
  shows "list_all P (collect f hunks)"
  using assms by (auto simp: collect_def list_all_iff)

lemma withinDocument_lineMark:
  "inBounds doc e \<Longrightarrow> withinDocument doc (lineMark e)"
  by (simp add: withinDocument_def onDocumentLine_def lineMark_def inBounds_def)

lemma withinDocument_ghosts:
  "list_all (withinDocument doc) (ghosts doc e n t)"
  by (simp add: ghosts_def ghostLine_def ghostAt_def withinDocument_def onDocumentLine_def
        textLineRange_def)

lemma withinDocument_fullLineText:
  "inBounds doc e \<Longrightarrow> list_all (withinDocument doc) (fullLineText doc e)"
  by (simp add: fullLineText_def withinDocument_def onDocumentLine_def textLineRange_def
        inBounds_def)

lemma columnBefore_nonneg: "0 \<le> columnBefore cs k"
  unfolding columnBefore_def by (rule sum_list_nonneg) auto

lemma onLineWithColumns_insertedRanges:
  "inBounds doc e \<Longrightarrow> list_all (onLineWithColumns doc) (insertedRanges e cs)"
  by (simp add: insertedRanges_def insertedRange_def onLineWithColumns_def onDocumentLine_def
        inBounds_def list_all_iff columnBefore_nonneg)

lemma onLineWithColumns_deletedMarkers:
  "inBounds doc e \<Longrightarrow> list_all (onLineWithColumns doc) (deletedMarkers e cs)"
  by (simp add: deletedMarkers_def deletedMarker_def onLineWithColumns_def onDocumentLine_def
        inBounds_def list_all_iff columnBefore_nonneg)

lemma withinDocument_columns:
  "list_all (withinDocument doc) xs \<Longrightarrow> list_all (onLineWithColumns doc) xs"
  by (simp add: list_all_iff withinDocument_def onLineWithColumns_def)

lemma withinDocument_addedLineAt: "list_all (withinDocument doc) (addedLineAt doc h i)"
  by (simp add: addedLineAt_def withinDocument_lineMark)

lemma withinDocument_modifiedLineAt: "list_all (withinDocument doc) (modifiedLineAt doc h i)"
  by (simp add: modifiedLineAt_def withinDocument_lineMark)

lemma withinDocument_ghostsAt: "list_all (withinDocument doc) (ghostsAt doc h i)"
  by (simp add: ghostsAt_def withinDocument_ghosts)

lemma withinDocument_pure_addition:
  "\<not> (0 < i \<and> ltype (lines h ! (i - 1)) = Removed) \<Longrightarrow>
   list_all (withinDocument doc) (addedTextsAt d doc h i)"
  by (auto simp: addedTextsAt_def withinDocument_fullLineText)

lemma onLineWithColumns_addedTextsAt:
  "list_all (onLineWithColumns doc) (addedTextsAt d doc h i)"
  by (simp add: addedTextsAt_def onLineWithColumns_insertedRanges
        withinDocument_columns [OF withinDocument_fullLineText])

lemma onLineWithColumns_markersAt:
  "list_all (onLineWithColumns doc) (markersAt d doc h i)"
  by (simp add: markersAt_def onLineWithColumns_deletedMarkers)

text \<open>
  C4, amended. \<open>calculateDecorations\<close> returns a bundle exactly when no added record has a
  negative editor line. A record whose editor line is at or beyond the line count of the
  document gives no annotation, a pure deletion whose preceding line is at or beyond it
  (or whose document has no line) gives no descriptor, and the records after it give
  theirs as usual. In the returned bundle every whole-line-added annotation, every
  whole-line-modified annotation and every deleted-line descriptor lies within the
  document, line and columns, and so does the inserted-text range of every pure
  addition. The inserted-text ranges and deleted-text markers of a modification pair lie
  on a line of the document with ordered, non-negative columns; their columns come from
  the character diff of the recorded contents and are not checked against the length of
  the live line.
\<close>

theorem annotations_within_document:
  "((\<exists>r. calculateDecorations d hunks doc = Inr r) \<longleftrightarrow> list_all runsThrough hunks)
   \<and> (calculateDecorations d hunks doc = Inr res \<longrightarrow>
        addedLines (decorationOptions res) = collect (addedLineAt doc) hunks
      \<and> modifiedLines (decorationOptions res) = collect (modifiedLineAt doc) hunks
      \<and> addedTexts (decorationOptions res) = collect (addedTextsAt d doc) hunks
      \<and> deletedCharacterMarkers (decorationOptions res) = collect (markersAt d doc) hunks
      \<and> inlineDeletedLineOptions res = collect (ghostsAt doc) hunks
      \<and> list_all (withinDocument doc)
           (addedLines (decorationOptions res) @ modifiedLines (decorationOptions res)
            @ inlineDeletedLineOptions res)
      \<and> list_all (onLineWithColumns doc)
           (addedTexts (decorationOptions res) @ deletedCharacterMarkers (decorationOptions res)))
   \<and> (\<not> inBounds doc (editorLineAt h i) \<longrightarrow>
        addedLineAt doc h i = [] \<and> modifiedLineAt doc h i = []
      \<and> addedTextsAt d doc h i = [] \<and> markersAt d doc h i = [])
   \<and> (lineCount doc \<le> editorLineAt h i - 1 \<or> lineCount doc = 0 \<longrightarrow> ghostsAt doc h i = [])
   \<and> (\<not> (0 < i \<and> ltype (lines h ! (i - 1)) = Removed) \<longrightarrow>
        list_all (withinDocument doc) (addedTextsAt d doc h i))"
proof (intro conjI impI)
  show "(\<exists>r. calculateDecorations d hunks doc = Inr r) \<longleftrightarrow> list_all runsThrough hunks"
    by (rule calculateDecorations_returns)
next
  assume c: "calculateDecorations d hunks doc = Inr res"
  note l = calculateDecorations_lists [OF c]
  show "addedLines (decorationOptions res) = collect (addedLineAt doc) hunks" by (rule l)
  show "modifiedLines (decorationOptions res) = collect (modifiedLineAt doc) hunks" by (rule l)
  show "addedTexts (decorationOptions res) = collect (addedTextsAt d doc) hunks" by (rule l)
  show "deletedCharacterMarkers (decorationOptions res) = collect (markersAt d doc) hunks"
    by (rule l)
  show "inlineDeletedLineOptions res = collect (ghostsAt doc) hunks" by (rule l)
  show "list_all (withinDocument doc)
           (addedLines (decorationOptions res) @ modifiedLines (decorationOptions res)
            @ inlineDeletedLineOptions res)"
    unfolding l
    by (simp add: list_all_collect withinDocument_addedLineAt withinDocument_modifiedLineAt
          withinDocument_ghostsAt)
  show "list_all (onLineWithColumns doc)
           (addedTexts (decorationOptions res) @ deletedCharacterMarkers (decorationOptions res))"
    unfolding l
    by (simp add: list_all_collect onLineWithColumns_addedTextsAt onLineWithColumns_markersAt)
next
  assume n: "\<not> inBounds doc (editorLineAt h i)"
  show "addedLineAt doc h i = []" using n by (simp add: addedLineAt_def)
  show "modifiedLineAt doc h i = []" using n by (simp add: modifiedLineAt_def)
  show "addedTextsAt d doc h i = []" using n by (simp add: addedTextsAt_def)
  show "markersAt d doc h i = []" using n by (simp add: markersAt_def)
next
  assume "lineCount doc \<le> editorLineAt h i - 1 \<or> lineCount doc = 0"
  then show "ghostsAt doc h i = []"
    by (auto simp: ghostsAt_def ghosts_def ghostLine_def lineCount_def)
next
  assume "\<not> (0 < i \<and> ltype (lines h ! (i - 1)) = Removed)"
  then show "list_all (withinDocument doc) (addedTextsAt d doc h i)"
    by (rule withinDocument_pure_addition)
qed


lemma exHunkEmptied_facts:
  "calculateDecorations trimDiffer [exHunkEmptied] [[]] = Inr exResEmptied"
  "list_all runsThrough [exHunkEmptied]"
  "inBounds [''ab''] (editorLineAt exHunkRun 4) = False"
  by code_simp+

theorem annotations_within_document_witness:
  "calculateDecorations trimDiffer [exHunkStale] [''ab''] = Inr exResStale
   \<and> list_all (withinDocument [''ab''])
        (addedLines (decorationOptions exResStale) @ modifiedLines (decorationOptions exResStale)
         @ inlineDeletedLineOptions exResStale)
   \<and> list_all (onLineWithColumns [''ab''])
        (addedTexts (decorationOptions exResStale)
         @ deletedCharacterMarkers (decorationOptions exResStale))
   \<and> addedLineAt [''ab''] exHunkRun 4 = []
   \<and> addedTextsAt trimDiffer [''ab''] exHunkRun 4 = []
   \<and> calculateDecorations trimDiffer [exHunkEmptied] [[]] = Inr exResEmptied"
proof -
  note t = annotations_within_document
             [of trimDiffer "[exHunkStale]" "[''ab'']" exResStale exHunkRun 4]
  have c: "calculateDecorations trimDiffer [exHunkStale] [''ab''] = Inr exResStale"
    by (rule calculateDecorations_exHunkStale)
  have b: "list_all (withinDocument [''ab''])
        (addedLines (decorationOptions exResStale) @ modifiedLines (decorationOptions exResStale)
         @ inlineDeletedLineOptions exResStale)
      \<and> list_all (onLineWithColumns [''ab''])
        (addedTexts (decorationOptions exResStale)
         @ deletedCharacterMarkers (decorationOptions exResStale))"
    using t c by blast
  have n: "\<not> inBounds [''ab''] (editorLineAt exHunkRun 4)"
    by (simp add: exHunkEmptied_facts(3))
  have d: "addedLineAt [''ab''] exHunkRun 4 = [] \<and> addedTextsAt trimDiffer [''ab''] exHunkRun 4 = []"
    using t n by blast
  have "\<exists>r. calculateDecorations trimDiffer [exHunkEmptied] [[]] = Inr r"
    using annotations_within_document [of trimDiffer "[exHunkEmptied]" "[[]]"]
          exHunkEmptied_facts(2) by blast
  then show ?thesis
    using c b d exHunkEmptied_facts(1) by blast
qed

section \<open>Properties of the hunk parsers\<close>

subsection \<open>Header counts and line records\<close>

lemma parseGitDiff_exDiffShort:
  "parseGitDiff exDiffShort =
     [\<lparr>oldStart = 1, oldCount = 5, newStart = 1, newCount = 5,
       lines = [\<lparr>ltype = Added, content = ''a''\<rparr>]\<rparr>]"
  by code_simp

text \<open>
  The claim C6 as stated fails: the parser copies the counts from the header and never
  compares them with the lines that follow. Here the header declares five old and five
  new lines and one added line follows.
\<close>

theorem header_counts_counterexample:
  "parseGitDiff exDiffShort =
     [\<lparr>oldStart = 1, oldCount = 5, newStart = 1, newCount = 5,
       lines = [\<lparr>ltype = Added, content = ''a''\<rparr>]\<rparr>]
   \<and> \<not> list_all countsAgree (parseGitDiff exDiffShort)"
  by (simp add: parseGitDiff_exDiffShort countsAgree_def oldLines_def newLines_def)

lemma foldl_parseLine_preamble:
  "list_all (\<lambda>l. matchHunkHeader l = None) pre \<Longrightarrow>
   foldl parseLine (None, hs) pre = (None, hs)"
  by (induction pre) simp_all

lemma pushLine_lines:
  "lines (pushLine h l) = lines h @ bodyRecords [l]"
  by (simp add: pushLine_def bodyRecords_def split: option.splits)

lemma bodyRecords_append: "bodyRecords (xs @ ys) = bodyRecords xs @ bodyRecords ys"
  by (simp add: bodyRecords_def)

lemma pushLine_eq:
  "pushLine h l = h\<lparr>lines := lines h @ bodyRecords [l]\<rparr>"
  by (simp add: pushLine_def bodyRecords_def split: option.splits)

lemma foldl_parseLine_body:
  "list_all (\<lambda>l. matchHunkHeader l = None) body \<Longrightarrow>
   foldl parseLine (Some h, hs) body = (Some (h\<lparr>lines := lines h @ bodyRecords body\<rparr>), hs)"
proof (induction body arbitrary: h)
  case Nil
  show ?case by (simp add: bodyRecords_def)
next
  case (Cons l body)
  have n: "matchHunkHeader l = None" and r: "list_all (\<lambda>l. matchHunkHeader l = None) body"
    using Cons.prems by simp_all
  have "bodyRecords (l # body) = bodyRecords [l] @ bodyRecords body"
    using bodyRecords_append [of "[l]" body] by simp
  then show ?case
    by (simp add: n Cons.IH [OF r] pushLine_eq)
qed

lemma foldl_parseLine_section:
  assumes "isSection (h, body)"
  shows "foldl parseLine (cur, hs) (h # body) = (Some (sectionHunk (h, body)), finish cur hs)"
proof -
  obtain m where m: "matchHunkHeader h = Some m"
    using assms by (auto simp: isSection_def)
  have b: "list_all (\<lambda>l. matchHunkHeader l = None) body"
    using assms by (simp add: isSection_def)
  have l: "lines (newHunk m) = []"
    by (cases m) (simp add: newHunk_def)
  show ?thesis
    by (simp add: m foldl_parseLine_body [OF b] sectionHunk_def l)
qed

lemma foldl_parseLine_sections:
  "list_all isSection secs \<Longrightarrow> secs \<noteq> [] \<Longrightarrow>
   foldl parseLine (cur, hs) (sectionLines secs) =
     (Some (sectionHunk (last secs)), finish cur hs @ map sectionHunk (butlast secs))"
proof (induction secs arbitrary: cur hs)
  case Nil
  then show ?case by simp
next
  case (Cons s secs)
  obtain h body where s: "s = (h, body)" by (cases s) auto
  have sec: "isSection (h, body)" using Cons.prems(1) by (simp add: s)
  have rest: "list_all isSection secs" using Cons.prems(1) by simp
  have sl: "sectionLines (s # secs) = (h # body) @ sectionLines secs"
    by (simp add: sectionLines_def s)
  have step: "foldl parseLine (cur, hs) (sectionLines (s # secs))
      = foldl parseLine (Some (sectionHunk (h, body)), finish cur hs) (sectionLines secs)"
    unfolding sl foldl_append foldl_parseLine_section [OF sec] ..
  show ?case
  proof (cases "secs = []")
    case True
    then show ?thesis using step by (simp add: sectionLines_def s)
  next
    case False
    show ?thesis
      unfolding step Cons.IH [OF rest False]
      using False by (simp add: finish_def s)
  qed
qed

lemma parseGitDiff_sections:
  assumes pre: "list_all (\<lambda>l. matchHunkHeader l = None) pre"
      and secs: "list_all isSection secs"
      and split: "splitLF diffOutput = pre @ sectionLines secs"
  shows "parseGitDiff diffOutput = map sectionHunk secs"
proof (cases "secs = []")
  case True
  have "foldl parseLine (None, []) (splitLF diffOutput) = (None, [])"
    using foldl_parseLine_preamble [OF pre] by (simp add: split True sectionLines_def)
  then show ?thesis by (simp add: parseGitDiff_def True finish_def)
next
  case False
  have ne: "diffOutput \<noteq> []"
  proof
    assume "diffOutput = []"
    then have e: "pre @ sectionLines secs = [[]]" using split by simp
    obtain s rest where sr: "secs = s # rest" using False by (cases secs) auto
    obtain h body where s: "s = (h, body)" by (cases s) auto
    have "h \<in> set (pre @ sectionLines secs)" by (simp add: sr s sectionLines_def)
    then have "h = []" using e by simp
    moreover have "matchHunkHeader h \<noteq> None" using secs by (simp add: sr s isSection_def)
    ultimately show False by (simp add: matchHunkHeader_def startsWith_def)
  qed
  have "foldl parseLine (None, []) (splitLF diffOutput)
      = (Some (sectionHunk (last secs)), finish None [] @ map sectionHunk (butlast secs))"
    unfolding split foldl_append foldl_parseLine_preamble [OF pre]
    by (rule foldl_parseLine_sections [OF secs False])
  then have "parseGitDiff diffOutput = map sectionHunk (butlast secs) @ [sectionHunk (last secs)]"
    using ne by (simp add: parseGitDiff_def finish_def)
  also have "\<dots> = map sectionHunk (butlast secs @ [last secs])" by simp
  also have "butlast secs @ [last secs] = secs" using False by simp
  finally show ?thesis .
qed

lemma sections_exist:
  "\<exists>pre secs. ls = pre @ sectionLines secs
     \<and> list_all (\<lambda>l. matchHunkHeader l = None) pre \<and> list_all isSection secs"
proof (induction ls)
  case Nil
  have "[] = [] @ sectionLines [] \<and> list_all (\<lambda>l. matchHunkHeader l = None) []
          \<and> list_all isSection []"
    by (simp add: sectionLines_def)
  then show ?case by blast
next
  case (Cons l ls)
  then obtain pre secs where d: "ls = pre @ sectionLines secs"
    and p: "list_all (\<lambda>l. matchHunkHeader l = None) pre" and s: "list_all isSection secs"
    by blast
  show ?case
  proof (cases "matchHunkHeader l")
    case None
    have "l # ls = (l # pre) @ sectionLines secs
          \<and> list_all (\<lambda>l. matchHunkHeader l = None) (l # pre) \<and> list_all isSection secs"
      using d p s None by simp
    then show ?thesis by blast
  next
    case (Some m)
    have hd: "isSection (l, pre)"
      unfolding isSection_def using p Some by (simp del: split_paired_Ex)
    have "l # ls = [] @ sectionLines ((l, pre) # secs)
          \<and> list_all (\<lambda>l. matchHunkHeader l = None) [] \<and> list_all isSection ((l, pre) # secs)"
      using d s hd by (simp add: sectionLines_def)
    then show ?thesis by blast
  qed
qed

lemma startsWith_one: "startsWith l [c] \<longleftrightarrow> (\<exists>t. l = c # t)"
  by (cases l) (auto simp: startsWith_def)

lemma oldLines_bodyRecords:
  "length (filter (\<lambda>r. ltype r \<noteq> Added) (bodyRecords body))
     = length (filter (\<lambda>l. startsWith l ''-'' \<or> startsWith l '' '') body)"
  by (induction body) (auto simp: bodyRecords_def lineRecordOf_def startsWith_one)

lemma newLines_bodyRecords:
  "length (filter (\<lambda>r. ltype r \<noteq> Removed) (bodyRecords body))
     = length (filter (\<lambda>l. startsWith l ''+'' \<or> startsWith l '' '') body)"
  by (induction body) (auto simp: bodyRecords_def lineRecordOf_def startsWith_one)

lemma sectionHunk_fields:
  assumes "matchHunkHeader h = Some (g1, g2, g3, g4)"
  shows "oldCount (sectionHunk (h, body)) = (if g2 \<noteq> [] then parseInt g2 else 1)"
    and "newCount (sectionHunk (h, body)) = (if g4 \<noteq> [] then parseInt g4 else 1)"
    and "oldStart (sectionHunk (h, body)) = parseInt g1"
    and "newStart (sectionHunk (h, body)) = parseInt g3"
    and "lines (sectionHunk (h, body)) = bodyRecords body"
  using assms by (simp_all add: sectionHunk_def newHunk_def)

text \<open>
  C6, amended. The lines of every input are a preamble without header followed by
  sections, each a header line and the lines up to the next header, and
  \<open>parseGitDiff\<close> returns one hunk for each section, in order. The hunk of a section has
  the \<open>oldCount\<close> and \<open>newCount\<close> written in the header (1 where the header omits the
  count); the number of its records that are not \<open>added\<close> is the number of lines of the
  section that start with \<open>-\<close> or a space, and the number of its records that are not
  \<open>removed\<close> is the number of lines that start with \<open>+\<close> or a space. So the record counts
  equal \<open>oldCount\<close> and \<open>newCount\<close> exactly for the hunks whose header declares the numbers
  of lines that follow it.
\<close>

theorem hunk_counts_follow_header:
  "(\<exists>pre secs. splitLF diffOutput = pre @ sectionLines secs
       \<and> list_all (\<lambda>l. matchHunkHeader l = None) pre \<and> list_all isSection secs)
   \<and> (\<forall>pre secs k h body g1 g2 g3 g4.
         splitLF diffOutput = pre @ sectionLines secs
         \<and> list_all (\<lambda>l. matchHunkHeader l = None) pre \<and> list_all isSection secs
         \<and> k < length secs \<and> secs ! k = (h, body)
         \<and> matchHunkHeader h = Some (g1, g2, g3, g4) \<longrightarrow>
         length (parseGitDiff diffOutput) = length secs
         \<and> oldCount (parseGitDiff diffOutput ! k) = (if g2 \<noteq> [] then parseInt g2 else 1)
         \<and> newCount (parseGitDiff diffOutput ! k) = (if g4 \<noteq> [] then parseInt g4 else 1)
         \<and> oldLines (parseGitDiff diffOutput ! k)
             = length (filter (\<lambda>l. startsWith l ''-'' \<or> startsWith l '' '') body)
         \<and> newLines (parseGitDiff diffOutput ! k)
             = length (filter (\<lambda>l. startsWith l ''+'' \<or> startsWith l '' '') body)
         \<and> (countsAgree (parseGitDiff diffOutput ! k) \<longleftrightarrow>
               int (length (filter (\<lambda>l. startsWith l ''-'' \<or> startsWith l '' '') body))
                 = (if g2 \<noteq> [] then parseInt g2 else 1)
             \<and> int (length (filter (\<lambda>l. startsWith l ''+'' \<or> startsWith l '' '') body))
                 = (if g4 \<noteq> [] then parseInt g4 else 1)))"
proof (intro conjI allI impI)
  show "\<exists>pre secs. splitLF diffOutput = pre @ sectionLines secs
       \<and> list_all (\<lambda>l. matchHunkHeader l = None) pre \<and> list_all isSection secs"
    by (rule sections_exist)
next
  fix pre secs k h body g1 g2 g3 g4
  assume a: "splitLF diffOutput = pre @ sectionLines secs
         \<and> list_all (\<lambda>l. matchHunkHeader l = None) pre \<and> list_all isSection secs
         \<and> k < length secs \<and> secs ! k = (h, body)
         \<and> matchHunkHeader h = Some (g1, g2, g3, g4)"
  have p: "parseGitDiff diffOutput = map sectionHunk secs"
    using a by (intro parseGitDiff_sections [of pre]) simp_all
  have k: "parseGitDiff diffOutput ! k = sectionHunk (h, body)"
    using a by (simp add: p)
  have m: "matchHunkHeader h = Some (g1, g2, g3, g4)" using a by simp
  show "length (parseGitDiff diffOutput) = length secs" by (simp add: p)
  show oc: "oldCount (parseGitDiff diffOutput ! k) = (if g2 \<noteq> [] then parseInt g2 else 1)"
    unfolding k by (rule sectionHunk_fields [OF m])
  show nc: "newCount (parseGitDiff diffOutput ! k) = (if g4 \<noteq> [] then parseInt g4 else 1)"
    unfolding k by (rule sectionHunk_fields [OF m])
  show ol: "oldLines (parseGitDiff diffOutput ! k)
             = length (filter (\<lambda>l. startsWith l ''-'' \<or> startsWith l '' '') body)"
    unfolding k oldLines_def sectionHunk_fields(5) [OF m] by (rule oldLines_bodyRecords)
  show nl: "newLines (parseGitDiff diffOutput ! k)
             = length (filter (\<lambda>l. startsWith l ''+'' \<or> startsWith l '' '') body)"
    unfolding k newLines_def sectionHunk_fields(5) [OF m] by (rule newLines_bodyRecords)
  show "countsAgree (parseGitDiff diffOutput ! k) \<longleftrightarrow>
               int (length (filter (\<lambda>l. startsWith l ''-'' \<or> startsWith l '' '') body))
                 = (if g2 \<noteq> [] then parseInt g2 else 1)
             \<and> int (length (filter (\<lambda>l. startsWith l ''+'' \<or> startsWith l '' '') body))
                 = (if g4 \<noteq> [] then parseInt g4 else 1)"
    unfolding countsAgree_def oc nc ol nl ..
qed

lemma splitLF_exDiffSimple:
  "splitLF exDiffSimple =
     [] @ sectionLines [(''@@ -1,2 +1,3 @@'',
        ['' unchanged line'', ''-removed line'', ''+added line'', ''+another added line''])]"
  by code_simp

lemma isSection_exDiffSimple:
  "list_all isSection [(''@@ -1,2 +1,3 @@'',
        ['' unchanged line'', ''-removed line'', ''+added line'', ''+another added line''])]"
  by code_simp

lemma matchHunkHeader_exDiffSimple:
  "matchHunkHeader ''@@ -1,2 +1,3 @@'' = Some (''1'', ''2'', ''1'', ''3'')"
  by code_simp

lemma parseInt_digits: "parseInt ''2'' = 2" "parseInt ''3'' = 3" "parseInt ''1'' = 1"
  by (simp_all add: parseInt_def digitValue_def)

theorem hunk_counts_follow_header_witness:
  "length (parseGitDiff exDiffSimple) = 1
   \<and> oldCount (parseGitDiff exDiffSimple ! 0) = 2
   \<and> newCount (parseGitDiff exDiffSimple ! 0) = 3
   \<and> oldLines (parseGitDiff exDiffSimple ! 0) = 2
   \<and> newLines (parseGitDiff exDiffSimple ! 0) = 3
   \<and> countsAgree (parseGitDiff exDiffSimple ! 0)"
proof -
  let ?body = "['' unchanged line'', ''-removed line'', ''+added line'', ''+another added line'']"
  let ?secs = "[(''@@ -1,2 +1,3 @@'', ?body)]"
  have h: "splitLF exDiffSimple = [] @ sectionLines ?secs
         \<and> list_all (\<lambda>l. matchHunkHeader l = None) [] \<and> list_all isSection ?secs
         \<and> 0 < length ?secs \<and> ?secs ! 0 = (''@@ -1,2 +1,3 @@'', ?body)
         \<and> matchHunkHeader ''@@ -1,2 +1,3 @@'' = Some (''1'', ''2'', ''1'', ''3'')"
    using splitLF_exDiffSimple isSection_exDiffSimple matchHunkHeader_exDiffSimple by simp
  have c: "length (filter (\<lambda>l. startsWith l ''-'' \<or> startsWith l '' '') ?body) = 2"
    "length (filter (\<lambda>l. startsWith l ''+'' \<or> startsWith l '' '') ?body) = 3"
    by (simp_all add: startsWith_def)
  from hunk_counts_follow_header [of exDiffSimple]
  have "\<forall>pre secs k h body g1 g2 g3 g4.
         splitLF exDiffSimple = pre @ sectionLines secs
         \<and> list_all (\<lambda>l. matchHunkHeader l = None) pre \<and> list_all isSection secs
         \<and> k < length secs \<and> secs ! k = (h, body)
         \<and> matchHunkHeader h = Some (g1, g2, g3, g4) \<longrightarrow>
         length (parseGitDiff exDiffSimple) = length secs
         \<and> oldCount (parseGitDiff exDiffSimple ! k) = (if g2 \<noteq> [] then parseInt g2 else 1)
         \<and> newCount (parseGitDiff exDiffSimple ! k) = (if g4 \<noteq> [] then parseInt g4 else 1)
         \<and> oldLines (parseGitDiff exDiffSimple ! k)
             = length (filter (\<lambda>l. startsWith l ''-'' \<or> startsWith l '' '') body)
         \<and> newLines (parseGitDiff exDiffSimple ! k)
             = length (filter (\<lambda>l. startsWith l ''+'' \<or> startsWith l '' '') body)
         \<and> (countsAgree (parseGitDiff exDiffSimple ! k) \<longleftrightarrow>
               int (length (filter (\<lambda>l. startsWith l ''-'' \<or> startsWith l '' '') body))
                 = (if g2 \<noteq> [] then parseInt g2 else 1)
             \<and> int (length (filter (\<lambda>l. startsWith l ''+'' \<or> startsWith l '' '') body))
                 = (if g4 \<noteq> [] then parseInt g4 else 1))"
    by (rule conjunct2)
  from this [rule_format, OF h]
  show ?thesis
    unfolding c by (simp add: parseInt_digits)
qed

subsection \<open>Headers with omitted counts in the exported parser\<close>

lemma takeWhile_number:
  "list_all isDigit a \<Longrightarrow> \<not> isDigit x \<Longrightarrow> takeWhile isDigit (a @ x # xs) = a"
  by (induction a) simp_all

lemma dropWhile_number:
  "list_all isDigit a \<Longrightarrow> \<not> isDigit x \<Longrightarrow> dropWhile isDigit (a @ x # xs) = x # xs"
  by (induction a) simp_all

lemma not_digit_space [simp]: "\<not> isDigit CHR '' ''"
  by (simp add: isDigit_def)

lemma not_digit_comma [simp]: "\<not> isDigit CHR '',''"
  by (simp add: isDigit_def)

text \<open>The group \<open>(\d+),?(\d*)\<close> followed by a space, read off a number and an optional count.\<close>

lemma number_and_count:
  assumes "isNumber a" and "\<forall>b. bo = Some b \<longrightarrow> isNumber b"
  shows "takeWhile isDigit (a @ countText bo @ CHR '' '' # xs) = a"
    and "takeWhile isDigit (optComma (dropWhile isDigit (a @ countText bo @ CHR '' '' # xs)))
           = (case bo of None \<Rightarrow> [] | Some b \<Rightarrow> b)"
    and "dropWhile isDigit (optComma (dropWhile isDigit (a @ countText bo @ CHR '' '' # xs)))
           = CHR '' '' # xs"
proof -
  have a: "list_all isDigit a" using assms(1) by (simp add: isNumber_def)
  show "takeWhile isDigit (a @ countText bo @ CHR '' '' # xs) = a"
    using a by (cases bo) (simp_all add: countText_def takeWhile_number)
  show "takeWhile isDigit (optComma (dropWhile isDigit (a @ countText bo @ CHR '' '' # xs)))
           = (case bo of None \<Rightarrow> [] | Some b \<Rightarrow> b)"
  proof (cases bo)
    case None
    then show ?thesis using a by (simp add: countText_def dropWhile_number optComma_def)
  next
    case (Some b)
    then have b: "list_all isDigit b" using assms(2) by (simp add: isNumber_def)
    show ?thesis
      using a b Some by (simp add: countText_def dropWhile_number optComma_def takeWhile_number)
  qed
  show "dropWhile isDigit (optComma (dropWhile isDigit (a @ countText bo @ CHR '' '' # xs)))
           = CHR '' '' # xs"
  proof (cases bo)
    case None
    then show ?thesis using a by (simp add: countText_def dropWhile_number optComma_def)
  next
    case (Some b)
    then have b: "list_all isDigit b" using assms(2) by (simp add: isNumber_def)
    show ?thesis
      using a b Some by (simp add: countText_def dropWhile_number optComma_def)
  qed
qed

lemma matchHunkHeader_headerLine:
  assumes a: "isNumber a" and b: "\<forall>x. bo = Some x \<longrightarrow> isNumber x"
      and c: "isNumber c" and d: "\<forall>x. do' = Some x \<longrightarrow> isNumber x"
  shows "matchHunkHeader (headerLine a bo c do' rest)
           = Some (a, (case bo of None \<Rightarrow> [] | Some x \<Rightarrow> x),
                   c, (case do' of None \<Rightarrow> [] | Some x \<Rightarrow> x))"
proof -
  define t2 where "t2 = ''+'' @ c @ countText do' @ '' @@'' @ rest"
  define t4 where "t4 = ''@@'' @ rest"
  have l4: "drop 4 (headerLine a bo c do' rest) = a @ countText bo @ CHR '' '' # t2"
    by (simp add: headerLine_def t2_def)
  have s1: "startsWith (headerLine a bo c do' rest) ''@@ -''"
    by (simp add: headerLine_def startsWith_def)
  have s2: "startsWith (CHR '' '' # t2) '' +''"
    by (simp add: startsWith_def t2_def)
  have l2: "drop 2 (CHR '' '' # t2) = c @ countText do' @ CHR '' '' # t4"
    by (simp add: t2_def t4_def)
  have s3: "startsWith (CHR '' '' # t4) '' @@''"
    by (simp add: startsWith_def t4_def)
  have na: "a \<noteq> []" and nc: "c \<noteq> []" using a c by (simp_all add: isNumber_def)
  show ?thesis
    unfolding matchHunkHeader_def Let_def l4 number_and_count [OF a b] l2
      number_and_count [OF c d]
    using s1 s2 s3 na nc by simp
qed

lemma parseLine_headerLine:
  assumes "isNumber a" and "\<forall>x. bo = Some x \<longrightarrow> isNumber x"
      and "isNumber c" and "\<forall>x. do' = Some x \<longrightarrow> isNumber x"
  shows "parseLine (cur, hs) (headerLine a bo c do' rest) =
           (Some \<lparr>oldStart = parseInt a, oldCount = countValue bo,
                  newStart = parseInt c, newCount = countValue do', lines = []\<rparr>,
            finish cur hs)"
proof -
  have nb: "x \<noteq> []" if "bo = Some x" for x using assms(2) that by (simp add: isNumber_def)
  have nd: "x \<noteq> []" if "do' = Some x" for x using assms(4) that by (simp add: isNumber_def)
  show ?thesis
    using nb nd
    by (simp add: matchHunkHeader_headerLine [OF assms] newHunk_def countValue_def
          split: option.splits)
qed


lemma parseInt_snoc: "parseInt (xs @ [c]) = 10 * parseInt xs + digitValue c"
  by (simp add: parseInt_def)

lemma digit_cases: "k < 10 \<Longrightarrow> k \<in> {0, 1, 2, 3, 4, 5, 6, 7, 8, 9::nat}"
  by auto

lemma digitValue_nth: "k < 10 \<Longrightarrow> digitValue (''0123456789'' ! k) = int k"
  using digit_cases [of k] by (auto simp: digitValue_def)

lemma isDigit_nth: "k < 10 \<Longrightarrow> isDigit (''0123456789'' ! k)"
  using digit_cases [of k] by (auto simp: isDigit_def)

lemma parseInt_digitsOf: "parseInt (digitsOf n) = int n"
proof (induction n rule: digitsOf.induct)
  case (1 n)
  show ?case
  proof (cases "n < 10")
    case True
    have "digitsOf n = [] @ [''0123456789'' ! n]"
      using True by (subst digitsOf.simps) simp
    then have "parseInt (digitsOf n) = 10 * parseInt [] + digitValue (''0123456789'' ! n)"
      by (simp only: parseInt_snoc)
    then show ?thesis using True by (simp add: digitValue_nth parseInt_def)
  next
    case False
    have "digitsOf n = digitsOf (n div 10) @ [''0123456789'' ! (n mod 10)]"
      using False by (subst digitsOf.simps) simp
    then have "parseInt (digitsOf n)
        = 10 * parseInt (digitsOf (n div 10)) + digitValue (''0123456789'' ! (n mod 10))"
      by (simp only: parseInt_snoc)
    also have "\<dots> = 10 * int (n div 10) + int (n mod 10)"
      using 1 False by (simp add: digitValue_nth)
    also have "\<dots> = int n" by presburger
    finally show ?thesis .
  qed
qed

lemma isNumber_digitsOf: "isNumber (digitsOf n)"
proof (induction n rule: digitsOf.induct)
  case (1 n)
  show ?case
  proof (cases "n < 10")
    case True
    have "digitsOf n = [''0123456789'' ! n]"
      using True by (subst digitsOf.simps) simp
    then show ?thesis using True by (simp add: isNumber_def isDigit_nth)
  next
    case False
    have "digitsOf n = digitsOf (n div 10) @ [''0123456789'' ! (n mod 10)]"
      using False by (subst digitsOf.simps) simp
    then show ?thesis using 1 False by (simp add: isNumber_def isDigit_nth)
  qed
qed

text \<open>
  The exported parser on a header with numbers \<open>a\<close>, \<open>c\<close> and counts that are given or
  omitted: the header is recognised at any place of the input, the numbers are read as
  written and an omitted count is 1.
\<close>

lemma exported_header_defaults:
  "parseLine (cur, hs)
     (headerLine (digitsOf a) (map_option digitsOf b) (digitsOf c) (map_option digitsOf d) rest) =
     (Some \<lparr>oldStart = int a, oldCount = (case b of None \<Rightarrow> 1 | Some n \<Rightarrow> int n),
            newStart = int c, newCount = (case d of None \<Rightarrow> 1 | Some n \<Rightarrow> int n),
            lines = []\<rparr>,
      finish cur hs)"
proof -
  have b: "\<forall>x. map_option digitsOf b = Some x \<longrightarrow> isNumber x"
    by (cases b) (simp_all add: isNumber_digitsOf)
  have d: "\<forall>x. map_option digitsOf d = Some x \<longrightarrow> isNumber x"
    by (cases d) (simp_all add: isNumber_digitsOf)
  have cb: "countValue (map_option digitsOf b) = (case b of None \<Rightarrow> 1 | Some n \<Rightarrow> int n)"
    by (cases b) (simp_all add: countValue_def parseInt_digitsOf)
  have cd: "countValue (map_option digitsOf d) = (case d of None \<Rightarrow> 1 | Some n \<Rightarrow> int n)"
    by (cases d) (simp_all add: countValue_def parseInt_digitsOf)
  show ?thesis
    unfolding parseLine_headerLine [OF isNumber_digitsOf b isNumber_digitsOf d]
    by (simp add: parseInt_digitsOf cb cd)
qed

subsection \<open>The module-local parser against the exported one\<close>

text \<open>
  C7. A hunk header whose count groups are omitted is to be recognised, with the omitted
  counts recorded as 1. The exported parser does so (\<open>exported_header_defaults\<close>). The
  module-local parser of \<open>extension.ts\<close> requires both commas and both counts in its
  pattern: on the diff git prints for a one-line change it recognises no header and
  returns no hunk, where the exported parser returns the hunk with both counts 1.
\<close>

theorem local_parser_omitted_counts:
  "parseGitDiff_local exDiffOneLine = []
   \<and> parseGitDiff exDiffOneLine =
       [\<lparr>oldStart = 1, oldCount = 1, newStart = 1, newCount = 1,
         lines = [\<lparr>ltype = Removed, content = ''a''\<rparr>, \<lparr>ltype = Added, content = ''b''\<rparr>]\<rparr>]"
  by code_simp

text \<open>
  C10. The module-local parser and the exported parser are to return the same hunks for
  every diff text. They do not: on a diff of two hunks whose second header omits the
  counts, the module-local parser skips the second header and appends the lines of the
  second hunk to the first, and the exported parser returns two hunks.
\<close>

theorem parsers_differ:
  "parseGitDiff_local exDiffTwoHunks =
       [\<lparr>oldStart = 1, oldCount = 2, newStart = 1, newCount = 2,
         lines = [\<lparr>ltype = Unchanged, content = ''a''\<rparr>, \<lparr>ltype = Removed, content = ''b''\<rparr>,
                  \<lparr>ltype = Added, content = ''c''\<rparr>, \<lparr>ltype = Removed, content = ''x''\<rparr>,
                  \<lparr>ltype = Added, content = ''y''\<rparr>]\<rparr>]
   \<and> parseGitDiff exDiffTwoHunks =
       [\<lparr>oldStart = 1, oldCount = 2, newStart = 1, newCount = 2,
         lines = [\<lparr>ltype = Unchanged, content = ''a''\<rparr>, \<lparr>ltype = Removed, content = ''b''\<rparr>,
                  \<lparr>ltype = Added, content = ''c''\<rparr>]\<rparr>,
        \<lparr>oldStart = 9, oldCount = 1, newStart = 9, newCount = 1,
         lines = [\<lparr>ltype = Removed, content = ''x''\<rparr>, \<lparr>ltype = Added, content = ''y''\<rparr>]\<rparr>]"
  by code_simp

end
